theory Spec2Isabelle
  imports Complex_Main
begin

section \<open>Python values used by the two scripts\<close>

text \<open>
  The repository holds two command-line scripts, \<^verbatim>\<open>modified_script.py\<close> (the simple
  variant) and \<^verbatim>\<open>wm_script.py\<close> (the resumable variant). Both probe URLs built
  from a base identifier, a date and a second of the day.

  Exceptions are values: \<open>exn + 'a\<close> with \<open>Inl\<close> for a raised exception. The
  messages of the source are Chinese text; they are represented by the constructors of
  \<open>reason\<close>.
\<close>

datatype reason =
    BadDateFormat string          \<comment> \<open>validate_date, strptime\<close>
  | EndDateBeforeStart            \<comment> \<open>validate_date_range\<close>
  | FebruaryTooLong int int       \<comment> \<open>validate_date_range\<close>
  | BadTimeFormat string          \<comment> \<open>validate_time\<close>
  | HourOutOfRange int
  | MinuteInvalid int
  | SecondInvalid int
  | EndTimeBeforeStart            \<comment> \<open>generate_time_numbers\<close>
  | InvalidLiteral string         \<comment> \<open>int() on a string that is no integer literal\<close>
  | MaxWorkers                    \<comment> \<open>ThreadPoolExecutor(max_workers) with max_workers <= 0\<close>

datatype exn = ValueError reason | OverflowError

subsection \<open>Strings and integers\<close>

definition is_digit :: "char \<Rightarrow> bool" where
  "is_digit c = (48 \<le> (of_char c :: nat) \<and> (of_char c :: nat) \<le> 57)"

definition digit_val :: "char \<Rightarrow> int" where
  "digit_val c = int (of_char c) - 48"

text \<open>The ASCII characters that \<^verbatim>\<open>str.strip()\<close> and \<^verbatim>\<open>int()\<close> treat as white space.\<close>

definition is_space :: "char \<Rightarrow> bool" where
  "is_space c = ((of_char c :: nat) \<in> {9, 10, 11, 12, 13, 28, 29, 30, 31, 32})"

definition strip :: "string \<Rightarrow> string" where
  "strip s = rev (dropWhile is_space (rev (dropWhile is_space s)))"

text \<open>
  \<^verbatim>\<open>int(s)\<close> on an ASCII string: surrounding white space is dropped, one sign is
  allowed, then decimal digits, with single underscores between digits.
\<close>

fun digits_value :: "int \<Rightarrow> string \<Rightarrow> int option" where
  "digits_value acc [] = Some acc"
| "digits_value acc [c] = (if is_digit c then Some (acc * 10 + digit_val c) else None)"
| "digits_value acc (c # d # cs) =
     (if is_digit c then
        (if d = CHR ''_'' then
           (case cs of [] \<Rightarrow> None
            | e # es \<Rightarrow> if is_digit e then digits_value (acc * 10 + digit_val c) cs else None)
         else digits_value (acc * 10 + digit_val c) (d # cs))
      else None)"

definition unsigned_value :: "string \<Rightarrow> int option" where
  "unsigned_value s = (if s = [] then None else digits_value 0 s)"

definition py_int :: "string \<Rightarrow> exn + int" where
  "py_int s =
     (let r = (case strip s of
                 [] \<Rightarrow> None
               | c # cs \<Rightarrow>
                   if c = CHR ''-'' then map_option uminus (unsigned_value cs)
                   else if c = CHR ''+'' then unsigned_value cs
                   else unsigned_value (c # cs))
      in case r of None \<Rightarrow> Inl (ValueError (InvalidLiteral s)) | Some n \<Rightarrow> Inr n)"

text \<open>The slice \<^verbatim>\<open>s[i:j]\<close> for \<open>0 \<le> i \<le> j\<close>.\<close>

definition slice :: "string \<Rightarrow> nat \<Rightarrow> nat \<Rightarrow> string" where
  "slice s i j = take (j - i) (drop i s)"

text \<open>Decimal digits of a natural number, and the format \<^verbatim>\<open>{n:02d}\<close>.\<close>

definition digit_char :: "nat \<Rightarrow> char" where
  "digit_char d = ''0123456789'' ! d"

fun decimal :: "nat \<Rightarrow> string" where
  "decimal n = (if n < 10 then [digit_char n] else decimal (n div 10) @ [digit_char (n mod 10)])"

declare decimal.simps [simp del]

definition fmt02d :: "int \<Rightarrow> string" where
  "fmt02d n =
     (if n < 0 then
        (let ds = decimal (nat (- n)) in CHR ''-'' # replicate (1 - length ds) (CHR ''0'') @ ds)
      else
        (let ds = decimal (nat n) in replicate (2 - length ds) (CHR ''0'') @ ds))"

subsection \<open>Time numbers\<close>

text \<open>
  \<^verbatim>\<open>generate_time_numbers\<close> is the same function in both scripts
  (modified_script.py 113-127, wm_script.py 59-73).
\<close>

definition to_seconds :: "string \<Rightarrow> exn + int" where
  "to_seconds t =
     (case py_int (slice t 0 2) of Inl e \<Rightarrow> Inl e | Inr h \<Rightarrow>
      case py_int (slice t 2 4) of Inl e \<Rightarrow> Inl e | Inr m \<Rightarrow>
      case py_int (slice t 4 6) of Inl e \<Rightarrow> Inl e | Inr s \<Rightarrow>
        Inr (h * 3600 + m * 60 + s))"

definition time_number :: "int \<Rightarrow> string" where
  "time_number sec =
     (let hour = sec div 3600;
          minute = (sec mod 3600) div 60;
          second = sec mod 60
      in fmt02d hour @ fmt02d minute @ fmt02d second)"

definition generate_time_numbers :: "string \<Rightarrow> string \<Rightarrow> exn + string list" where
  "generate_time_numbers start_time end_time =
     (case to_seconds start_time of Inl e \<Rightarrow> Inl e | Inr start_sec \<Rightarrow>
      case to_seconds end_time of Inl e \<Rightarrow> Inl e | Inr end_sec \<Rightarrow>
        if start_sec > end_sec then Inl (ValueError EndTimeBeforeStart)
        else Inr (map time_number [start_sec..end_sec]))"

text \<open>\<^verbatim>\<open>validate_time\<close> (modified_script.py 62-78).\<close>

definition validate_time :: "string \<Rightarrow> exn + string" where
  "validate_time time_str =
     (if length time_str \<noteq> 6 \<or> \<not> list_all is_digit time_str
      then Inl (ValueError (BadTimeFormat time_str))
      else
        case py_int (slice time_str 0 2) of Inl e \<Rightarrow> Inl e | Inr hour \<Rightarrow>
        case py_int (slice time_str 2 4) of Inl e \<Rightarrow> Inl e | Inr minute \<Rightarrow>
        case py_int (slice time_str 4 6) of Inl e \<Rightarrow> Inl e | Inr second \<Rightarrow>
          if \<not> (0 \<le> hour \<and> hour \<le> 23) then Inl (ValueError (HourOutOfRange hour))
          else if \<not> (0 \<le> minute \<and> minute \<le> 59) then Inl (ValueError (MinuteInvalid minute))
          else if \<not> (0 \<le> second \<and> second \<le> 59) then Inl (ValueError (SecondInvalid second))
          else Inr (fmt02d hour @ fmt02d minute @ fmt02d second))"

subsection \<open>Dates\<close>

text \<open>
  Both scripts build their dates with \<^verbatim>\<open>datetime.strptime(s, "%Y%m%d")\<close>, compare them,
  move them by \<^verbatim>\<open>timedelta(days=1)\<close> and print them with \<^verbatim>\<open>strftime('%Y%m%d')\<close>.
  Such a value is a midnight; it is represented by its proleptic Gregorian ordinal
  (\<^verbatim>\<open>datetime.toordinal()\<close>), where comparison is \<open>\<le>\<close> and one day is \<open>+ 1\<close>.
  The last date a \<^verbatim>\<open>datetime\<close> can hold is 9999-12-31, with ordinal \<open>3652059\<close>;
  adding a day to it raises \<^verbatim>\<open>OverflowError\<close>.
\<close>

type_synonym datetime = int

definition MAXORD :: datetime where
  "MAXORD = 3652059"

definition plus_one_day :: "datetime \<Rightarrow> exn + datetime" where
  "plus_one_day d = (if d + 1 > MAXORD then Inl OverflowError else Inr (d + 1))"

text \<open>
  The functions of the \<^verbatim>\<open>datetime\<close> library that the scripts call are parameters of
  the model: parsing (\<open>None\<close> when \<^verbatim>\<open>strptime\<close> raises \<^verbatim>\<open>ValueError\<close>),
  printing, and the three fields read by \<^verbatim>\<open>validate_date_range\<close>.
\<close>

record lib =
  strptime :: "string \<Rightarrow> datetime option"
  strftime :: "datetime \<Rightarrow> string"
  year_of :: "datetime \<Rightarrow> int"
  month_of :: "datetime \<Rightarrow> int"
  day_of :: "datetime \<Rightarrow> int"

section \<open>What both scripts share\<close>

subsection \<open>The world outside the process\<close>

text \<open>
  One attempt on the wire either brings back a status code or fails at the connection.
  \<^verbatim>\<open>session.head\<close> either returns a response or raises a
  \<^verbatim>\<open>requests.exceptions.RequestException\<close>.
\<close>

datatype raw = Http nat | ConnError

datatype response = Response nat | RequestException

text \<open>
  The interleaving of the main thread, the pool's workers and the interrupt signal is an
  input of a run: a list of steps. \<open>Start i\<close>: a worker takes task \<open>i\<close>, enters its
  call and reads the stop flag; \<open>Send i\<close>: the worker of task \<open>i\<close>, having found the
  flag clear, sends its request; \<open>Finish i\<close>: the call of task \<open>i\<close> returns;
  \<open>Collect i\<close>: \<^verbatim>\<open>as_completed\<close> hands future \<open>i\<close> to the main loop; \<open>Sigint\<close>:
  SIGINT is delivered. The read of the flag and the request are separate steps: the
  signal can arrive between them. A step that cannot happen in the state it meets is
  skipped. The signal is delivered before the run (\<open>early_sigint\<close>) or at a step of a
  pool; a delivery to the main thread between two pools is not a step of the model.
\<close>

datatype step = Sigint | Start nat | Send nat | Finish nat | Collect nat

record env =
  WM_DOMAIN :: "string option"            \<comment> \<open>os.getenv('WM\_DOMAIN')\<close>
  WM_PATH :: "string option"              \<comment> \<open>os.getenv('WM\_PATH')\<close>
  wire :: "string \<Rightarrow> nat \<Rightarrow> raw"           \<comment> \<open>what attempt k on a URL brings back\<close>
  clock :: "nat \<Rightarrow> real"                  \<comment> \<open>the k-th reading of time.time()\<close>
  sched :: "nat \<Rightarrow> step list"             \<comment> \<open>the interleaving during the k-th pool\<close>
  early_sigint :: bool                    \<comment> \<open>SIGINT before the first poll of the flag\<close>
  files0 :: "string \<Rightarrow> string option"     \<comment> \<open>the files on disk when the process starts\<close>

subsection \<open>The retry policy\<close>

text \<open>
  \<^verbatim>\<open>urllib3.util.retry.Retry\<close> with the arguments the scripts pass. \<open>total\<close> counts
  retries: the first attempt is not one of them. A response is retried when the method is
  allowed and its status is in \<open>status_forcelist\<close>; a failed connection is retried too.
  When the count is used up the call raises (\<^verbatim>\<open>RetryError\<close> or
  \<^verbatim>\<open>ConnectionError\<close>, both \<^verbatim>\<open>RequestException\<close>). Responses are
  modelled by their status code alone, that is, without a \<^verbatim>\<open>Retry-After\<close> header.
\<close>

record retry =
  total :: int
  backoff_factor :: real
  status_forcelist :: "nat list"
  allowed_methods :: "string list"

definition is_retry :: "retry \<Rightarrow> string \<Rightarrow> nat \<Rightarrow> bool" where
  "is_retry R method status_code =
     (method \<in> set (allowed_methods R) \<and> status_code \<in> set (status_forcelist R))"

text \<open>
  \<open>urlopen R rs left k\<close>: attempt number \<open>k\<close> with \<open>left\<close> retries left; the
  result is the outcome and the number of attempts made.
\<close>

function urlopen :: "retry \<Rightarrow> (nat \<Rightarrow> raw) \<Rightarrow> int \<Rightarrow> nat \<Rightarrow> response \<times> nat" where
  "urlopen R rs left k =
     (case rs k of
        Http st \<Rightarrow>
          if is_retry R ''HEAD'' st then
            (if left - 1 < 0 then (RequestException, Suc k)
             else urlopen R rs (left - 1) (Suc k))
          else (Response st, Suc k)
      | ConnError \<Rightarrow>
          if left - 1 < 0 then (RequestException, Suc k)
          else urlopen R rs (left - 1) (Suc k))"
  by pat_completeness auto
termination
  by (relation "measure (\<lambda>(R, rs, left, k). nat left)") auto

declare urlopen.simps [simp del]

definition session_head :: "retry \<Rightarrow> env \<Rightarrow> string \<Rightarrow> response" where
  "session_head R E url = fst (urlopen R (wire E url) (total R) 0)"

definition py_str :: "string option \<Rightarrow> string" where
  "py_str v = (case v of None \<Rightarrow> ''None'' | Some s \<Rightarrow> s)"

subsection \<open>The state of a run\<close>

text \<open>
  What a run does to the outside is recorded in order: the message of the signal handler,
  each request sent (with the file head and time number of its target), each write of the
  checkpoint file and each write of the output file.
\<close>

datatype effect =
    Interrupt
  | Probe string string
  | SaveProgress string
  | WriteOutput string

text \<open>
  A future is pending, entered (its worker has read the stop flag, found it clear and has
  not sent the request yet), running (with the outcome its request will have), finished
  (with \<open>None\<close> when the worker found the stop flag set and sent nothing), already
  handed to the main loop, or cancelled.
\<close>

datatype task_status =
    Pending
  | Entered
  | Running response
  | Finished "response option"
  | Yielded "response option"
  | Cancelled

record state =
  should_stop :: bool
  VALID_LINKS :: "string list"
  effects :: "effect list"
  files :: "string \<Rightarrow> string option"
  ticks :: nat
  status :: "task_status list"
  active :: bool                          \<comment> \<open>the as\_completed loop is still running\<close>

definition OUTPUT_FILE :: string where
  "OUTPUT_FILE = ''valid_links.txt''"

definition init_state :: "env \<Rightarrow> state" where
  "init_state E =
     \<lparr>should_stop = early_sigint E, VALID_LINKS = [],
      effects = (if early_sigint E then [Interrupt] else []),
      files = files0 E, ticks = 0, status = [], active = False\<rparr>"

definition signal_handler :: "state \<Rightarrow> state" where
  "signal_handler s = s\<lparr>should_stop := True, effects := effects s @ [Interrupt]\<rparr>"

fun join_lines :: "string list \<Rightarrow> string" where
  "join_lines [] = []"
| "join_lines [x] = x"
| "join_lines (x # y # ys) = x @ [CHR 0x0A] @ join_lines (y # ys)"

text \<open>The write of the result file (modified_script.py 216-217, wm_script.py 171-172).\<close>

definition write_output :: "state \<Rightarrow> state" where
  "write_output s =
     s\<lparr>files := (files s)(OUTPUT_FILE \<mapsto> join_lines (VALID_LINKS s)),
       effects := effects s @ [WriteOutput (join_lines (VALID_LINKS s))]\<rparr>"

definition is_running :: "task_status \<Rightarrow> bool" where
  "is_running t = (case t of Running r \<Rightarrow> True | _ \<Rightarrow> False)"

definition is_yielded :: "task_status \<Rightarrow> bool" where
  "is_yielded t = (case t of Yielded r \<Rightarrow> True | _ \<Rightarrow> False)"

text \<open>A worker is busy with a future from the moment it enters the call until it returns.\<close>

definition is_busy :: "task_status \<Rightarrow> bool" where
  "is_busy t = (case t of Entered \<Rightarrow> True | Running r \<Rightarrow> True | _ \<Rightarrow> False)"

definition running :: "state \<Rightarrow> nat" where
  "running s = length (filter is_busy (status s))"

definition cancel_pending :: "task_status list \<Rightarrow> task_status list" where
  "cancel_pending ts = map (\<lambda>t. if t = Pending then Cancelled else t) ts"

text \<open>
  When the given interleaving ends, the pool is driven to its end: the calls that were
  entered send their requests, running calls return, then each remaining task is started,
  sent, finished and collected in turn.
\<close>

definition drain :: "nat \<Rightarrow> step list" where
  "drain n =
     map Send [0..<n] @ map Finish [0..<n]
       @ concat (map (\<lambda>i. [Start i, Send i, Finish i, Collect i]) [0..<n])"

section \<open>modified\_script.py\<close>

record args =
  base :: string
  start_date :: string
  end_date :: string
  start_time :: string
  end_time :: string
  workers :: int

definition validate_date :: "lib \<Rightarrow> string \<Rightarrow> exn + datetime" where
  "validate_date L date_str =
     (case strptime L date_str of
        None \<Rightarrow> Inl (ValueError (BadDateFormat date_str))
      | Some d \<Rightarrow> Inr d)"

definition is_leap_year :: "int \<Rightarrow> bool" where
  "is_leap_year year = (year mod 4 = 0 \<and> (year mod 100 \<noteq> 0 \<or> year mod 400 = 0))"

text \<open>The \<^verbatim>\<open>while\<close> loop of \<^verbatim>\<open>validate_date_range\<close> (modified_script.py 54-60).\<close>

function february_loop :: "lib \<Rightarrow> datetime \<Rightarrow> datetime \<Rightarrow> exn + unit" where
  "february_loop L current end_d =
     (if current \<le> end_d then
        (if month_of L current = 2
            \<and> day_of L current > (if is_leap_year (year_of L current) then 29 else 28)
         then Inl (ValueError (FebruaryTooLong (year_of L current)
                     (if is_leap_year (year_of L current) then 29 else 28)))
         else (case plus_one_day current of
                 Inl e \<Rightarrow> Inl e
               | Inr next_d \<Rightarrow> february_loop L next_d end_d))
      else Inr ())"
  by pat_completeness auto
termination
  by (relation "measure (\<lambda>(L, current, end_d). nat (end_d - current + 1))")
     (auto simp: plus_one_day_def split: if_splits)

declare february_loop.simps [simp del]

definition validate_date_range :: "lib \<Rightarrow> datetime \<Rightarrow> datetime \<Rightarrow> exn + unit" where
  "validate_date_range L start_d end_d =
     (if start_d > end_d then Inl (ValueError EndDateBeforeStart)
      else february_loop L start_d end_d)"

definition filehead_of :: "lib \<Rightarrow> string \<Rightarrow> datetime \<Rightarrow> string" where
  "filehead_of L b d = b @ ''_'' @ strftime L d"

text \<open>The task loop of \<^verbatim>\<open>main\<close> (modified_script.py 182-189).\<close>

function tasks_loop ::
  "lib \<Rightarrow> string \<Rightarrow> string list \<Rightarrow> datetime \<Rightarrow> datetime \<Rightarrow> (string \<times> string) list
     \<Rightarrow> exn + (string \<times> string) list" where
  "tasks_loop L b time_numbers current end_d tasks =
     (if current \<le> end_d then
        (case plus_one_day current of
           Inl e \<Rightarrow> Inl e
         | Inr next_d \<Rightarrow>
             tasks_loop L b time_numbers next_d end_d
               (tasks @ map (\<lambda>tn. (filehead_of L b current, tn)) time_numbers))
      else Inr tasks)"
  by pat_completeness auto
termination
  by (relation "measure (\<lambda>(L, b, tns, current, end_d, tasks). nat (end_d - current + 1))")
     (auto simp: plus_one_day_def split: if_splits)

declare tasks_loop.simps [simp del]


definition create_retry_session :: retry where
  "create_retry_session =
     \<lparr>total = 3, backoff_factor = 0.3, status_forcelist = [500, 502, 503, 504],
      allowed_methods = [''HEAD'']\<rparr>"

definition generate_url :: "env \<Rightarrow> string \<Rightarrow> string \<Rightarrow> string" where
  "generate_url E filehead time_str =
     ''https://'' @ py_str (WM_DOMAIN E) @ py_str (WM_PATH E) @ filehead @ time_str @ ''_0.opt''"

text \<open>
  \<^verbatim>\<open>check_link\<close> (modified_script.py 129-153) runs in a worker; the main thread, the
  signal handler and the other workers run between its statements, so it is given in three
  parts: the read of the stop flag (lines 131-133), the request (lines 135-140), and the
  return with the append to the list (lines 142-153).
\<close>

definition check_link_enter :: "nat \<Rightarrow> state \<Rightarrow> state" where
  "check_link_enter i s =
     (if should_stop s then s\<lparr>status := (status s)[i := Finished None]\<rparr>
      else s\<lparr>status := (status s)[i := Entered]\<rparr>)"

definition check_link_request :: "env \<Rightarrow> string \<times> string \<Rightarrow> nat \<Rightarrow> state \<Rightarrow> state" where
  "check_link_request E task i s =
     s\<lparr>effects := effects s @ [Probe (fst task) (snd task)],
       status := (status s)[i := Running
         (session_head create_retry_session E (generate_url E (fst task) (snd task)))]\<rparr>"

definition check_link_return :: "env \<Rightarrow> string \<times> string \<Rightarrow> nat \<Rightarrow> response \<Rightarrow> state \<Rightarrow> state" where
  "check_link_return E task i r s =
     (if r = Response 200
      then s\<lparr>VALID_LINKS := VALID_LINKS s @ [generate_url E (fst task) (snd task)],
             status := (status s)[i := Finished (Some r)]\<rparr>
      else s\<lparr>status := (status s)[i := Finished (Some r)]\<rparr>)"

text \<open>One step of the pool of \<^verbatim>\<open>main\<close> (modified_script.py 196-213).\<close>

fun pool_step :: "env \<Rightarrow> int \<Rightarrow> (string \<times> string) list \<Rightarrow> state \<Rightarrow> step \<Rightarrow> state" where
  "pool_step E w tasks s Sigint = signal_handler s"
| "pool_step E w tasks s (Start i) =
     (if i < length tasks \<and> status s ! i = Pending \<and> int (running s) < w
      then check_link_enter i s else s)"
| "pool_step E w tasks s (Send i) =
     (if i < length tasks \<and> status s ! i = Entered
      then check_link_request E (tasks ! i) i s else s)"
| "pool_step E w tasks s (Finish i) =
     (if i < length tasks then
        (case status s ! i of
           Running r \<Rightarrow> check_link_return E (tasks ! i) i r s
         | _ \<Rightarrow> s)
      else s)"
| "pool_step E w tasks s (Collect i) =
     (if active s \<and> i < length tasks then
        (case status s ! i of
           Finished ro \<Rightarrow>
             if should_stop s
             then s\<lparr>status := cancel_pending (status s), active := False\<rparr>
             else (let ts = (status s)[i := Yielded ro]
                   in s\<lparr>status := ts, active := \<not> list_all is_yielded ts\<rparr>)
         | _ \<Rightarrow> s)
      else s)"

definition run_pool :: "env \<Rightarrow> int \<Rightarrow> (string \<times> string) list \<Rightarrow> state \<Rightarrow> state" where
  "run_pool E w tasks s =
     foldl (pool_step E w tasks)
       (s\<lparr>status := replicate (length tasks) Pending, active := (tasks \<noteq> [])\<rparr>)
       (sched E 0 @ drain (length tasks))"

text \<open>
  How the process ends: \<^verbatim>\<open>main\<close> returns, or it prints an argument error and calls
  \<^verbatim>\<open>sys.exit(1)\<close>, or an exception leaves \<^verbatim>\<open>main\<close> uncaught.
\<close>

datatype exit = Returned | ArgumentError exn | Uncaught exn

text \<open>The validation block of \<^verbatim>\<open>main\<close> (modified_script.py 165-176).\<close>

definition validate_args ::
  "lib \<Rightarrow> args \<Rightarrow> exn + (datetime \<times> datetime \<times> string \<times> string \<times> string list)" where
  "validate_args L a =
     (case validate_date L (start_date a) of Inl e \<Rightarrow> Inl e | Inr sd \<Rightarrow>
      case validate_date L (end_date a) of Inl e \<Rightarrow> Inl e | Inr ed \<Rightarrow>
      case validate_date_range L sd ed of Inl e \<Rightarrow> Inl e | Inr u \<Rightarrow>
      case validate_time (start_time a) of Inl e \<Rightarrow> Inl e | Inr st \<Rightarrow>
      case validate_time (end_time a) of Inl e \<Rightarrow> Inl e | Inr et \<Rightarrow>
      case generate_time_numbers st et of Inl e \<Rightarrow> Inl e | Inr tns \<Rightarrow>
        Inr (sd, ed, st, et, tns))"

definition main :: "env \<Rightarrow> lib \<Rightarrow> args \<Rightarrow> exit \<times> state" where
  "main E L a =
     (case validate_args L a of
        Inl (ValueError r) \<Rightarrow> (ArgumentError (ValueError r), init_state E)
      | Inl OverflowError \<Rightarrow> (Uncaught OverflowError, init_state E)
      | Inr (sd, ed, st, et, tns) \<Rightarrow>
          (case tasks_loop L (base a) tns sd ed [] of
             Inl e \<Rightarrow> (Uncaught e, init_state E)
           | Inr tasks \<Rightarrow>
               if workers a \<le> 0 then (Uncaught (ValueError MaxWorkers), init_state E)
               else (Returned, write_output (run_pool E (workers a) tasks (init_state E)))))"

section \<open>wm\_script.py\<close>

record wm_args = args +
  timeout :: int
  resume_file :: string

record guard =
  g_start_time :: real
  max_runtime :: int
  g_resume_file :: string
  last_progress :: "string option"

definition load_progress :: "string \<Rightarrow> state \<Rightarrow> string option" where
  "load_progress path s = (case files s path of None \<Rightarrow> None | Some c \<Rightarrow> Some (strip c))"

definition TimeoutGuard :: "env \<Rightarrow> int \<Rightarrow> string \<Rightarrow> state \<Rightarrow> guard \<times> state" where
  "TimeoutGuard E max_rt path s =
     (\<lparr>g_start_time = clock E (ticks s), max_runtime = max_rt, g_resume_file = path,
       last_progress = load_progress path s\<rparr>,
      s\<lparr>ticks := Suc (ticks s)\<rparr>)"

definition save_progress :: "lib \<Rightarrow> guard \<Rightarrow> datetime \<Rightarrow> state \<Rightarrow> state" where
  "save_progress L G current_date s =
     s\<lparr>files := (files s)(g_resume_file G \<mapsto> strftime L current_date),
       effects := effects s @ [SaveProgress (strftime L current_date)]\<rparr>"

definition remaining_time :: "env \<Rightarrow> guard \<Rightarrow> state \<Rightarrow> real \<times> state" where
  "remaining_time E G s =
     (real_of_int (max_runtime G) - (clock E (ticks s) - g_start_time G),
      s\<lparr>ticks := Suc (ticks s)\<rparr>)"

definition check_timeout :: "env \<Rightarrow> guard \<Rightarrow> state \<Rightarrow> bool \<times> state" where
  "check_timeout E G s = (fst (remaining_time E G s) < 300, snd (remaining_time E G s))"

definition generate_wm_url :: "env \<Rightarrow> string \<Rightarrow> string \<Rightarrow> string" where
  "generate_wm_url E filehead time_str =
     ''https://'' @ py_str (WM_DOMAIN E) @ py_str (WM_PATH E) @ filehead @ time_str @ ''_0.opt''"

definition wm_create_retry_session :: retry where
  "wm_create_retry_session =
     \<lparr>total = 3, backoff_factor = 0.5, status_forcelist = [500..<600],
      allowed_methods = [''HEAD'']\<rparr>"

text \<open>
  \<^verbatim>\<open>check_wm_link\<close> (wm_script.py 93-106), run by a worker: the read of the stop flag
  (lines 95-97), then the request (lines 99-101). Its return value is the URL when the
  response is 200, \<^verbatim>\<open>None\<close> for another response or a request exception, and
  \<^verbatim>\<open>False\<close> when the stop flag was set.
\<close>

definition check_wm_link_enter :: "nat \<Rightarrow> state \<Rightarrow> state" where
  "check_wm_link_enter i s =
     (if should_stop s then s\<lparr>status := (status s)[i := Finished None]\<rparr>
      else s\<lparr>status := (status s)[i := Entered]\<rparr>)"

definition check_wm_link_request :: "env \<Rightarrow> string \<Rightarrow> string \<Rightarrow> nat \<Rightarrow> state \<Rightarrow> state" where
  "check_wm_link_request E filehead time_str i s =
     s\<lparr>effects := effects s @ [Probe filehead time_str],
       status := (status s)[i := Running
         (session_head wm_create_retry_session E (generate_wm_url E filehead time_str))]\<rparr>"

definition check_wm_link_result :: "env \<Rightarrow> string \<Rightarrow> string \<Rightarrow> response option \<Rightarrow> string option" where
  "check_wm_link_result E filehead time_str ro =
     (if ro = Some (Response 200) then Some (generate_wm_url E filehead time_str) else None)"

text \<open>One step of the pool of one date (wm_script.py 130-140).\<close>

fun batch_step ::
  "env \<Rightarrow> guard \<Rightarrow> int \<Rightarrow> string \<Rightarrow> string list \<Rightarrow> state \<Rightarrow> step \<Rightarrow> state" where
  "batch_step E G w filehead tns s Sigint = signal_handler s"
| "batch_step E G w filehead tns s (Start i) =
     (if i < length tns \<and> status s ! i = Pending \<and> int (running s) < w
      then check_wm_link_enter i s else s)"
| "batch_step E G w filehead tns s (Send i) =
     (if i < length tns \<and> status s ! i = Entered
      then check_wm_link_request E filehead (tns ! i) i s else s)"
| "batch_step E G w filehead tns s (Finish i) =
     (if i < length tns then
        (case status s ! i of
           Running r \<Rightarrow> s\<lparr>status := (status s)[i := Finished (Some r)]\<rparr>
         | _ \<Rightarrow> s)
      else s)"
| "batch_step E G w filehead tns s (Collect i) =
     (if active s \<and> i < length tns then
        (case status s ! i of
           Finished ro \<Rightarrow>
             if should_stop s
             then s\<lparr>status := cancel_pending (status s), active := False\<rparr>
             else if fst (check_timeout E G s)
             then (snd (check_timeout E G s))
                    \<lparr>status := cancel_pending (status s), active := False\<rparr>
             else (let s1 = snd (check_timeout E G s);
                       ts = (status s)[i := Yielded ro];
                       links = (case check_wm_link_result E filehead (tns ! i) ro of
                                  Some url \<Rightarrow> VALID_LINKS s1 @ [url]
                                | None \<Rightarrow> VALID_LINKS s1)
                   in s1\<lparr>VALID_LINKS := links, status := ts,
                         active := \<not> list_all is_yielded ts\<rparr>)
         | _ \<Rightarrow> s)
      else s)"

definition run_batch ::
  "env \<Rightarrow> guard \<Rightarrow> int \<Rightarrow> nat \<Rightarrow> string \<Rightarrow> string list \<Rightarrow> state \<Rightarrow> state" where
  "run_batch E G w k filehead tns s =
     foldl (batch_step E G w filehead tns)
       (s\<lparr>status := replicate (length tns) Pending, active := (tns \<noteq> [])\<rparr>)
       (sched E k @ drain (length tns))"

text \<open>The \<^verbatim>\<open>while\<close> loop of \<^verbatim>\<open>process_date_range\<close> (wm_script.py 121-142).\<close>

function date_loop ::
  "env \<Rightarrow> lib \<Rightarrow> wm_args \<Rightarrow> guard \<Rightarrow> datetime \<Rightarrow> nat \<Rightarrow> datetime \<Rightarrow> state
     \<Rightarrow> (exn + datetime) \<times> state" where
  "date_loop E L a G end_d k current s =
     (if current \<le> end_d \<and> \<not> should_stop s then
        (if fst (check_timeout E G s)
         then (Inr current, save_progress L G current (snd (check_timeout E G s)))
         else (case generate_time_numbers (start_time a) (end_time a) of
                 Inl e \<Rightarrow> (Inl e, snd (check_timeout E G s))
               | Inr tns \<Rightarrow>
                   if workers a \<le> 0
                   then (Inl (ValueError MaxWorkers), snd (check_timeout E G s))
                   else (case plus_one_day current of
                           Inl e \<Rightarrow>
                             (Inl e, run_batch E G (workers a) k (filehead_of L (base a) current)
                                       tns (snd (check_timeout E G s)))
                         | Inr next_d \<Rightarrow>
                             date_loop E L a G end_d (Suc k) next_d
                               (run_batch E G (workers a) k (filehead_of L (base a) current)
                                  tns (snd (check_timeout E G s))))))
      else (Inr current, s))"
  by pat_completeness auto
termination
  by (relation "measure (\<lambda>(E, L, a, G, end_d, k, current, s). nat (end_d - current + 1))")
     (auto simp: plus_one_day_def split: if_splits)

declare date_loop.simps [simp del]

text \<open>
  The start of the loop (wm_script.py 111-119): the requested start date, or the date of
  the checkpoint when that is later.
\<close>

definition effective_start :: "lib \<Rightarrow> guard \<Rightarrow> datetime \<Rightarrow> exn + datetime" where
  "effective_start L G current_date =
     (case last_progress G of
        None \<Rightarrow> Inr current_date
      | Some p \<Rightarrow>
          if p = [] then Inr current_date
          else (case strptime L p of
                  None \<Rightarrow> Inl (ValueError (BadDateFormat p))
                | Some resume_date \<Rightarrow>
                    if resume_date > current_date then Inr resume_date else Inr current_date))"

definition process_date_range ::
  "env \<Rightarrow> lib \<Rightarrow> wm_args \<Rightarrow> guard \<Rightarrow> state \<Rightarrow> (exn + datetime) \<times> state" where
  "process_date_range E L a G s =
     (case strptime L (start_date a) of
        None \<Rightarrow> (Inl (ValueError (BadDateFormat (start_date a))), s)
      | Some current_date \<Rightarrow>
          (case strptime L (end_date a) of
             None \<Rightarrow> (Inl (ValueError (BadDateFormat (end_date a))), s)
           | Some end_d \<Rightarrow>
               (case effective_start L G current_date of
                  Inl e \<Rightarrow> (Inl e, s)
                | Inr first \<Rightarrow> date_loop E L a G end_d 0 first s)))"

text \<open>What \<^verbatim>\<open>main\<close> prints about the run (wm_script.py 163-169).\<close>

datatype report = PartlyDone string | AllDone | ErrorExit exn

definition exit_code :: "report \<Rightarrow> int" where
  "exit_code r = (case r of ErrorExit e \<Rightarrow> 1 | _ \<Rightarrow> 0)"

definition wm_report :: "lib \<Rightarrow> wm_args \<Rightarrow> exn + datetime \<Rightarrow> report" where
  "wm_report L a r =
     (case r of
        Inl e \<Rightarrow> ErrorExit e
      | Inr last_processed \<Rightarrow>
          (case strptime L (end_date a) of
             None \<Rightarrow> ErrorExit (ValueError (BadDateFormat (end_date a)))
           | Some end_d \<Rightarrow>
               if last_processed \<le> end_d then PartlyDone (strftime L last_processed)
               else AllDone))"

definition wm_main :: "env \<Rightarrow> lib \<Rightarrow> wm_args \<Rightarrow> report \<times> state" where
  "wm_main E L a =
     (let gs = TimeoutGuard E (timeout a) (resume_file a) (init_state E);
          rs = process_date_range E L a (fst gs) (snd gs)
      in (wm_report L a (fst rs), write_output (snd rs)))"

section \<open>A calendar for the examples\<close>

text \<open>
  The examples need one instance of the library: the proleptic Gregorian calendar with
  the algorithms of CPython's \<^verbatim>\<open>datetime\<close> (\<^verbatim>\<open>_ymd2ord\<close>, \<^verbatim>\<open>_ord2ymd\<close>), a parser
  that accepts the zero-padded eight-digit form and a printer that writes it. The
  general theorems hold for every instance.
\<close>

definition days_before_year :: "int \<Rightarrow> int" where
  "days_before_year y = (y - 1) * 365 + (y - 1) div 4 - (y - 1) div 100 + (y - 1) div 400"

definition days_in_month :: "int \<Rightarrow> int \<Rightarrow> int" where
  "days_in_month y m =
     (if m = 2 then (if is_leap_year y then 29 else 28)
      else if m = 4 \<or> m = 6 \<or> m = 9 \<or> m = 11 then 30 else 31)"

definition days_before_month :: "int \<Rightarrow> int \<Rightarrow> int" where
  "days_before_month y m = sum_list (map (days_in_month y) [1..m - 1])"

definition ymd2ord :: "int \<Rightarrow> int \<Rightarrow> int \<Rightarrow> int" where
  "ymd2ord y m d = days_before_year y + days_before_month y m + d"

definition ord2ymd :: "int \<Rightarrow> int \<times> int \<times> int" where
  "ord2ymd n0 =
     (let n = n0 - 1;
          n400 = n div 146097; n = n mod 146097;
          n100 = n div 36524; n = n mod 36524;
          n4 = n div 1461; n = n mod 1461;
          n1 = n div 365; n = n mod 365;
          year = n400 * 400 + 1 + n100 * 100 + n4 * 4 + n1
      in if n1 = 4 \<or> n100 = 4 then (year - 1, 12, 31)
         else (let leapyear = (n1 = 3 \<and> (n4 \<noteq> 24 \<or> n100 = 3));
                   month = (n + 50) div 32;
                   preceding = days_before_month (if leapyear then 4 else 1) month
               in if preceding > n
                  then (year, month - 1,
                        n - (preceding - days_in_month (if leapyear then 4 else 1) (month - 1)) + 1)
                  else (year, month, n - preceding + 1)))"

definition zero_pad :: "nat \<Rightarrow> string \<Rightarrow> string" where
  "zero_pad w ds = replicate (w - length ds) (CHR ''0'') @ ds"

definition gregorian_strftime :: "datetime \<Rightarrow> string" where
  "gregorian_strftime d =
     (case ord2ymd d of (y, m, dd) \<Rightarrow>
        zero_pad 4 (decimal (nat y)) @ zero_pad 2 (decimal (nat m)) @ zero_pad 2 (decimal (nat dd)))"

definition gregorian_strptime :: "string \<Rightarrow> datetime option" where
  "gregorian_strptime s =
     (if length s = 8 \<and> list_all is_digit s then
        (case (digits_value 0 (take 4 s), digits_value 0 (take 2 (drop 4 s)),
               digits_value 0 (drop 6 s)) of
           (Some y, Some m, Some d) \<Rightarrow>
             if 1 \<le> y \<and> 1 \<le> m \<and> m \<le> 12 \<and> 1 \<le> d \<and> d \<le> days_in_month y m
             then Some (ymd2ord y m d) else None
         | _ \<Rightarrow> None)
      else None)"

definition gregorian :: lib where
  "gregorian =
     \<lparr>strptime = gregorian_strptime, strftime = gregorian_strftime,
      year_of = (\<lambda>d. fst (ord2ymd d)),
      month_of = (\<lambda>d. fst (snd (ord2ymd d))),
      day_of = (\<lambda>d. snd (snd (ord2ymd d)))\<rparr>"

section \<open>The time code of the specification\<close>

text \<open>
  The specification asks for time codes \<open>HHMMSS\<close>, zero-padded: second \<open>sec\<close> of a
  day is written with two decimal digits each for its hour, its minute and its second.
  This is written down independently of the code, to compare
  \<^verbatim>\<open>generate_time_numbers\<close> against.
\<close>

definition spec_digit :: "int \<Rightarrow> char" where
  "spec_digit d = char_of (48 + d)"

definition spec_two_digits :: "int \<Rightarrow> string" where
  "spec_two_digits n = [spec_digit (n div 10), spec_digit (n mod 10)]"

definition spec_hhmmss :: "int \<Rightarrow> string" where
  "spec_hhmmss sec =
     spec_two_digits (sec div 3600) @ spec_two_digits (sec mod 3600 div 60)
       @ spec_two_digits (sec mod 60)"

section \<open>Properties of the record of effects\<close>

definition is_probe :: "effect \<Rightarrow> bool" where
  "is_probe e = (case e of Probe fh tn \<Rightarrow> True | _ \<Rightarrow> False)"

definition is_write :: "effect \<Rightarrow> bool" where
  "is_write e = (case e of WriteOutput c \<Rightarrow> True | _ \<Rightarrow> False)"

definition is_save :: "effect \<Rightarrow> bool" where
  "is_save e = (case e of SaveProgress c \<Rightarrow> True | _ \<Rightarrow> False)"



text \<open>The futures whose worker has read the flag as clear and has not sent its request.\<close>

definition is_entered :: "task_status \<Rightarrow> bool" where
  "is_entered t = (t = Entered)"



text \<open>
  One step of a pool, seen from outside: the files stay, the list of links grows at its
  end, and the record of effects is unchanged, or gains the handler's message (the flag
  is then set), or gains one request, sent for a target satisfying \<open>Q\<close>.
\<close>

definition pstep :: "(string \<Rightarrow> string \<Rightarrow> bool) \<Rightarrow> state \<Rightarrow> state \<Rightarrow> bool" where
  "pstep Q s s' =
     (files s' = files s \<and> (\<exists>ls. VALID_LINKS s' = VALID_LINKS s @ ls) \<and>
      ((effects s' = effects s \<and> should_stop s' = should_stop s) \<or>
       (effects s' = effects s @ [Interrupt] \<and> should_stop s') \<or>
       (\<exists>fh tn. effects s' = effects s @ [Probe fh tn] \<and> Q fh tn
           \<and> should_stop s' = should_stop s)))"

text \<open>
  The invariant of a run before its result file is written: the flag is set exactly when
  the handler's message is on record, the result file has not been written, and every
  request was sent for a target satisfying \<open>Q\<close>.
\<close>

definition safe :: "(string \<Rightarrow> string \<Rightarrow> bool) \<Rightarrow> state \<Rightarrow> bool" where
  "safe Q s =
     ((should_stop s \<longleftrightarrow> Interrupt \<in> set (effects s)) \<and>
      list_all (\<lambda>e. \<not> is_write e) (effects s) \<and>
      (\<forall>fh tn. Probe fh tn \<in> set (effects s) \<longrightarrow> Q fh tn))"

text \<open>
  Every link on the list is the URL of a request on record whose outcome was the
  response 200.
\<close>

definition links_sound :: "env \<Rightarrow> retry \<Rightarrow> state \<Rightarrow> bool" where
  "links_sound E R s =
     (\<forall>u \<in> set (VALID_LINKS s). \<exists>fh tn. Probe fh tn \<in> set (effects s)
         \<and> u = generate_url E fh tn \<and> session_head R E u = Response 200)"


text \<open>
  Inside the pool of \<^verbatim>\<open>modified_script.py\<close>: every request on record belongs to a
  future that is running or done with an outcome, and the URL of a done future whose
  outcome is the response 200 is on the list of links.
\<close>

definition has_outcome :: "task_status \<Rightarrow> bool" where
  "has_outcome t =
     (case t of Running r \<Rightarrow> True | Finished (Some r) \<Rightarrow> True | Yielded (Some r) \<Rightarrow> True
      | _ \<Rightarrow> False)"

definition done_ok :: "task_status \<Rightarrow> bool" where
  "done_ok t = (t = Finished (Some (Response 200)) \<or> t = Yielded (Some (Response 200)))"



text \<open>
  Two states of a run that differ only in what the probes found: the list of links and the
  outcomes held by the tasks may differ, everything that steers the run is the same.
  \<open>phase\<close> forgets the outcome a task holds.
\<close>

definition phase :: "task_status \<Rightarrow> task_status" where
  "phase t =
     (case t of
        Pending \<Rightarrow> Pending
      | Entered \<Rightarrow> Entered
      | Running r \<Rightarrow> Running RequestException
      | Finished ro \<Rightarrow> Finished None
      | Yielded ro \<Rightarrow> Yielded None
      | Cancelled \<Rightarrow> Cancelled)"

definition same_course :: "state \<Rightarrow> state \<Rightarrow> bool" where
  "same_course s t =
     (should_stop s = should_stop t \<and> effects s = effects t \<and> files s = files t \<and>
      ticks s = ticks t \<and> active s = active t \<and>
      map phase (status s) = map phase (status t))"

text \<open>The guard of a run of \<^verbatim>\<open>wm_script.py\<close>, as \<^verbatim>\<open>main\<close> builds it.\<close>

definition guard_of :: "env \<Rightarrow> wm_args \<Rightarrow> guard" where
  "guard_of E a = fst (TimeoutGuard E (timeout a) (resume_file a) (init_state E))"

section \<open>Example inputs\<close>

definition example_args :: args where
  "example_args =
     \<lparr>base = ''b'', start_date = ''20240101'', end_date = ''20240102'',
      start_time = ''000000'', end_time = ''000002'', workers = 2\<rparr>"

definition flaky :: "nat \<Rightarrow> raw" where
  "flaky k = (if k < 3 then Http 503 else Http 200)"

definition example_wire :: "string \<Rightarrow> nat \<Rightarrow> raw" where
  "example_wire url k =
     (if url = ''https://h.example/p/b_20240101000001_0.opt'' then Http 200 else Http 404)"

definition example_env :: env where
  "example_env =
     \<lparr>WM_DOMAIN = Some ''h.example'', WM_PATH = Some ''/p/'', wire = example_wire,
      clock = (\<lambda>k. 0), sched = (\<lambda>k. []), early_sigint = False, files0 = (\<lambda>p. None)\<rparr>"

definition example_wm_args :: wm_args where
  "example_wm_args =
     \<lparr>base = ''b'', start_date = ''20240101'', end_date = ''20240102'',
      start_time = ''000000'', end_time = ''000002'', workers = 2,
      timeout = 19800, resume_file = ''progress.log''\<rparr>"

text \<open>A checkpoint file left by an earlier run, holding a date after the end date.\<close>

definition checkpoint_files :: "string \<Rightarrow> string option" where
  "checkpoint_files p = (if p = ''progress.log'' then Some ''20240105'' else None)"

text \<open>A checkpoint inside the range.\<close>

definition resume_files :: "string \<Rightarrow> string option" where
  "resume_files p = (if p = ''progress.log'' then Some ''20240102'' else None)"

text \<open>SIGINT while the first date is collected: two calls entered, one returned.\<close>

definition interrupted_sched :: "nat \<Rightarrow> step list" where
  "interrupted_sched k =
     (if k = 0 then [Start 0, Send 0, Start 1, Send 1, Finish 1, Sigint, Collect 1] else [])"

definition checkpoint_env :: env where
  "checkpoint_env = example_env\<lparr>files0 := checkpoint_files\<rparr>"

definition resume_env :: env where
  "resume_env = example_env\<lparr>files0 := resume_files\<rparr>"

text \<open>A time budget already inside the safety margin of 300 seconds.\<close>

definition short_args :: wm_args where
  "short_args = example_wm_args\<lparr>timeout := 100\<rparr>"

definition interrupted_env :: env where
  "interrupted_env = example_env\<lparr>sched := interrupted_sched\<rparr>"

text \<open>Inverted ranges, and a pool without workers.\<close>

definition inverted_args :: args where
  "inverted_args = example_args\<lparr>end_date := ''20231231''\<rparr>"

definition inverted_wm_args :: wm_args where
  "inverted_wm_args = example_wm_args\<lparr>end_date := ''20231231''\<rparr>"

definition no_workers_args :: args where
  "no_workers_args = example_args\<lparr>workers := 0\<rparr>"

text \<open>
  SIGINT between the request of the second target of the first date and its return
  (modified_script.py).
\<close>

definition inflight_sched :: "nat \<Rightarrow> step list" where
  "inflight_sched k = [Start 1, Send 1, Sigint, Finish 1]"

definition inflight_env :: env where
  "inflight_env = example_env\<lparr>sched := inflight_sched\<rparr>"







text \<open>A range that ends on the last day a \<^verbatim>\<open>datetime\<close> can hold.\<close>

definition last_day_args :: args where
  "last_day_args = example_args\<lparr>start_date := ''99991231'', end_date := ''99991231''\<rparr>"

definition late_start_args :: args where
  "late_start_args = example_args\<lparr>start_time := ''000005''\<rparr>"

definition late_start_wm_args :: wm_args where
  "late_start_wm_args = example_wm_args\<lparr>start_time := ''000005''\<rparr>"

section \<open>Time numbers\<close>

lemma digit_char_cases: "d < 10 \<Longrightarrow> d = 0 \<or> d = 1 \<or> d = 2 \<or> d = 3 \<or> d = 4 \<or> d = 5 \<or> d = 6 \<or> d = 7 \<or> d = 8 \<or> d = (9::nat)"
  by arith

lemma is_digit_digit_char: "d < 10 \<Longrightarrow> is_digit (digit_char d)"
  using digit_char_cases[of d] by (auto simp: is_digit_def digit_char_def)

lemma digit_val_digit_char: "d < 10 \<Longrightarrow> digit_val (digit_char d) = int d"
  using digit_char_cases[of d] by (auto simp: digit_val_def digit_char_def)

lemma digit_val_range: "is_digit c \<Longrightarrow> 0 \<le> digit_val c \<and> digit_val c \<le> 9"
  by (simp add: is_digit_def digit_val_def)

lemma digit_char_digit_val: 
  assumes "is_digit c" shows "digit_char (nat (digit_val c)) = c"
proof -
  let ?d = "nat (digit_val c)"
  have d: "?d < 10" using digit_val_range[OF assms] by linarith
  have "(of_char (digit_char ?d) :: nat) = 48 + ?d"
    using digit_char_cases[OF d] by (auto simp: digit_char_def)
  also have "\<dots> = of_char c" using assms unfolding is_digit_def digit_val_def by linarith
  finally show ?thesis by (simp only: of_char_eq_iff)
qed

lemma fmt02d_two: "0 \<le> n \<Longrightarrow> n < 100 \<Longrightarrow> fmt02d n = [digit_char (nat n div 10), digit_char (nat n mod 10)]"
proof -
  assume a: "0 \<le> n" "n < 100"
  show ?thesis
  proof (cases "nat n < 10")
    case True
    then have "decimal (nat n) = [digit_char (nat n)]" by (simp add: decimal.simps)
    with True a show ?thesis by (simp add: fmt02d_def digit_char_def)
  next
    case False
    with a have "nat n div 10 < 10" by auto
    then have "decimal (nat n div 10) = [digit_char (nat n div 10)]" by (simp add: decimal.simps)
    with False a show ?thesis by (simp add: fmt02d_def decimal.simps[of "nat n"])
  qed
qed

lemma digit_not_special: 
  assumes "is_digit c" 
  shows "\<not> is_space c" "c \<noteq> CHR ''-''" "c \<noteq> CHR ''+''" "c \<noteq> CHR ''_''"
  using assms by (auto simp: is_digit_def is_space_def)

lemma py_int_two_digits:
  assumes "is_digit a" "is_digit b"
  shows "py_int [a, b] = Inr (digit_val a * 10 + digit_val b)"
  using assms digit_not_special[OF assms(1)] digit_not_special[OF assms(2)]
  by (simp add: py_int_def strip_def unsigned_value_def)

lemma py_int_fmt02d: 
  assumes "0 \<le> n" "n < 100" shows "py_int (fmt02d n) = Inr n"
proof -
  have d: "nat n div 10 < 10" "nat n mod 10 < 10" using assms by auto
  have "py_int (fmt02d n) = Inr (int (nat n div 10) * 10 + int (nat n mod 10))"
    using d by (simp only: fmt02d_two[OF assms] py_int_two_digits is_digit_digit_char digit_val_digit_char)
  also have "int (nat n div 10) * 10 + int (nat n mod 10) = n" using assms by (simp add: zdiv_int zmod_int)
  finally show ?thesis .
qed

lemma fmt02d_length: "0 \<le> n \<Longrightarrow> n < 100 \<Longrightarrow> length (fmt02d n) = 2 \<and> list_all is_digit (fmt02d n)"
  using is_digit_digit_char[of "nat n div 10"] is_digit_digit_char[of "nat n mod 10"] 
  by (simp add: fmt02d_two)

lemma time_number_parts:
  assumes "0 \<le> (s::int)" "s < 360000"
  shows "0 \<le> s div 3600" "s div 3600 < 100" "0 \<le> (s mod 3600) div 60" "(s mod 3600) div 60 < 100"
        "0 \<le> s mod 60" "s mod 60 < 100"
  using assms by (simp_all add: div_less_iff_less_mult pos_imp_zdiv_nonneg_iff)

lemma time_number_split:
  "time_number s = fmt02d (s div 3600) @ fmt02d ((s mod 3600) div 60) @ fmt02d (s mod 60)"
  by (simp only: time_number_def Let_def)

lemma to_seconds_three:
  assumes "length a = 2" "length b = 2" "length c = 2"
  shows "to_seconds (a @ b @ c) =
     (case py_int a of Inl e \<Rightarrow> Inl e | Inr h \<Rightarrow>
      case py_int b of Inl e \<Rightarrow> Inl e | Inr m \<Rightarrow>
      case py_int c of Inl e \<Rightarrow> Inl e | Inr s \<Rightarrow>
        Inr (h * 3600 + m * 60 + s))"
proof -
  have "slice (a @ b @ c) 0 2 = a" "slice (a @ b @ c) 2 4 = b" "slice (a @ b @ c) 4 6 = c"
    using assms by (simp_all add: slice_def)
  then show ?thesis by (simp only: to_seconds_def)
qed

lemma hms_recompose: "(s::int) div 3600 * 3600 + s mod 3600 div 60 * 60 + s mod 60 = s"
proof -
  have a: "s mod 3600 mod 60 = s mod 60" by (simp add: mod_mod_cancel)
  have b: "s = 3600 * (s div 3600) + s mod 3600" by simp
  have c: "s mod 3600 = 60 * (s mod 3600 div 60) + s mod 3600 mod 60" by simp
  show ?thesis using a b c by linarith
qed

lemma to_seconds_time_number:
  assumes "0 \<le> s" "s < 360000"
  shows "to_seconds (time_number s) = Inr s"
proof -
  define h m c where "h = s div 3600" and "m = s mod 3600 div 60" and "c = s mod 60"
  have p: "0 \<le> h" "h < 100" "0 \<le> m" "m < 100" "0 \<le> c" "c < 100"
    unfolding h_def m_def c_def using time_number_parts[OF assms] by blast+
  have l: "length (fmt02d h) = 2" "length (fmt02d m) = 2" "length (fmt02d c) = 2"
    using p by (simp_all only: fmt02d_length)
  have t: "time_number s = fmt02d h @ fmt02d m @ fmt02d c"
    unfolding h_def m_def c_def by (rule time_number_split)
  have "to_seconds (time_number s) = Inr (h * 3600 + m * 60 + c)"
    unfolding t to_seconds_three[OF l] using p by (simp add: py_int_fmt02d)
  also have "h * 3600 + m * 60 + c = s"
    unfolding h_def m_def c_def by (rule hms_recompose)
  finally show ?thesis .
qed

lemma time_number_format:
  assumes "0 \<le> s" "s < 360000"
  shows "length (time_number s) = 6 \<and> list_all is_digit (time_number s)"
proof -
  define h m c where "h = s div 3600" and "m = s mod 3600 div 60" and "c = s mod 60"
  have p: "0 \<le> h" "h < 100" "0 \<le> m" "m < 100" "0 \<le> c" "c < 100"
    unfolding h_def m_def c_def using time_number_parts[OF assms] by blast+
  have t: "time_number s = fmt02d h @ fmt02d m @ fmt02d c"
    unfolding h_def m_def c_def by (rule time_number_split)
  show ?thesis unfolding t
    using fmt02d_length[OF p(1,2)] fmt02d_length[OF p(3,4)] fmt02d_length[OF p(5,6)] by simp
qed

lemma time_number_inj:
  "inj_on time_number {0..<360000}"
proof (rule inj_onI)
  fix x y :: int assume hx: "x \<in> {0..<360000}" and hy: "y \<in> {0..<360000}"
    and e: "time_number x = time_number y"
  have x: "0 \<le> x" "x < 360000" using hx by simp_all
  have y: "0 \<le> y" "y < 360000" using hy by simp_all
  have a: "to_seconds (time_number x) = Inr x" by (rule to_seconds_time_number[OF x])
  have b: "to_seconds (time_number y) = Inr y" by (rule to_seconds_time_number[OF y])
  from a b e have "Inr x = (Inr y :: exn + int)" by (simp only:)
  then show "x = y" by (simp only: sum.inject)
qed

section \<open>Task generation\<close>

lemma two_digits:
  assumes "is_digit a" "is_digit b"
  shows "py_int [a, b] = Inr (digit_val a * 10 + digit_val b)"
    and "0 \<le> digit_val a * 10 + digit_val b"
    and "digit_val a * 10 + digit_val b < 100"
    and "fmt02d (digit_val a * 10 + digit_val b) = [a, b]"
proof -
  let ?n = "digit_val a * 10 + digit_val b"
  have ra: "0 \<le> digit_val a" "digit_val a \<le> 9" and rb: "0 \<le> digit_val b" "digit_val b \<le> 9"
    using digit_val_range[OF assms(1)] digit_val_range[OF assms(2)] by simp_all
  show "py_int [a, b] = Inr ?n" by (rule py_int_two_digits[OF assms])
  show n0: "0 \<le> ?n" using ra rb by linarith
  show n1: "?n < 100" using ra rb by linarith
  have "nat ?n = nat (digit_val a) * 10 + nat (digit_val b)" using ra rb by linarith
  moreover have "nat (digit_val b) < 10" using rb by linarith
  ultimately have d: "nat ?n div 10 = nat (digit_val a)" "nat ?n mod 10 = nat (digit_val b)"
    by simp_all
  show "fmt02d ?n = [a, b]"
    unfolding fmt02d_two[OF n0 n1] d
    by (simp only: digit_char_digit_val[OF assms(1)] digit_char_digit_val[OF assms(2)])
qed

lemma six_chars:
  assumes "length t = 6"
  obtains a b c d e f where "t = [a, b, c, d, e, f]"
proof -
  from assms obtain a t1 where 1: "t = a # t1" "length t1 = 5" by (cases t) auto
  then obtain b t2 where 2: "t1 = b # t2" "length t2 = 4" by (cases t1) auto
  then obtain c t3 where 3: "t2 = c # t3" "length t3 = 3" by (cases t2) auto
  then obtain d t4 where 4: "t3 = d # t4" "length t4 = 2" by (cases t3) auto
  then obtain e t5 where 5: "t4 = e # t5" "length t5 = 1" by (cases t4) auto
  then obtain f where 6: "t5 = [f]" by (cases t5) auto
  show ?thesis using that 1 2 3 4 5 6 by simp
qed

lemma validate_time_Inr:
  assumes "validate_time t = Inr t'"
  shows "t' = t \<and> (\<exists>s. to_seconds t = Inr s \<and> 0 \<le> s \<and> s \<le> 86399)"
proof -
  from assms have len: "length t = 6" and dig: "list_all is_digit t"
    by (auto simp: validate_time_def split: if_splits)
  from len obtain a b c d e f where t: "t = [a, b, c, d, e, f]" by (rule six_chars)
  from dig have g: "is_digit a" "is_digit b" "is_digit c" "is_digit d" "is_digit e" "is_digit f"
    by (simp_all add: t)
  define h m s where "h = digit_val a * 10 + digit_val b"
    and "m = digit_val c * 10 + digit_val d" and "s = digit_val e * 10 + digit_val f"
  have sl: "slice t 0 2 = [a, b]" "slice t 2 4 = [c, d]" "slice t 4 6 = [e, f]"
    by (simp_all add: t slice_def)
  have p: "py_int (slice t 0 2) = Inr h" "py_int (slice t 2 4) = Inr m" "py_int (slice t 4 6) = Inr s"
    unfolding sl h_def m_def s_def using g by (simp_all only: two_digits(1))
  have f: "fmt02d h = [a, b]" "fmt02d m = [c, d]" "fmt02d s = [e, f]"
    unfolding h_def m_def s_def using g by (simp_all only: two_digits(4))
  have v: "validate_time t =
     (if \<not> (0 \<le> h \<and> h \<le> 23) then Inl (ValueError (HourOutOfRange h))
      else if \<not> (0 \<le> m \<and> m \<le> 59) then Inl (ValueError (MinuteInvalid m))
      else if \<not> (0 \<le> s \<and> s \<le> 59) then Inl (ValueError (SecondInvalid s))
      else Inr (fmt02d h @ fmt02d m @ fmt02d s))"
    using len dig by (simp add: validate_time_def p)
  from assms v have r: "0 \<le> h" "h \<le> 23" "0 \<le> m" "m \<le> 59" "0 \<le> s" "s \<le> 59"
    and t': "t' = fmt02d h @ fmt02d m @ fmt02d s"
    by (auto split: if_splits)
  have "t' = t" by (simp add: t' f t)
  moreover have "to_seconds t = Inr (h * 3600 + m * 60 + s)"
    by (simp add: to_seconds_def p)
  moreover have "0 \<le> h * 3600 + m * 60 + s" "h * 3600 + m * 60 + s \<le> 86399"
    using r by linarith+
  ultimately show ?thesis by blast
qed

lemma tasks_loop_eq:
  assumes "end_d < MAXORD"
  shows "tasks_loop L b tns current end_d acc =
     Inr (acc @ concat (map (\<lambda>d. map (\<lambda>tn. (filehead_of L b d, tn)) tns) [current..end_d]))"
  using assms
proof (induction L b tns current end_d acc rule: tasks_loop.induct)
  case (1 L b tns current end_d acc)
  show ?case
  proof (cases "current \<le> end_d")
    case True
    then have p: "plus_one_day current = Inr (current + 1)"
      using "1.prems" by (simp add: plus_one_day_def)
    have u: "[current..end_d] = current # [current + 1..end_d]"
      using True by (simp add: upto_rec1)
    show ?thesis
      using True "1.IH"[OF True p "1.prems"]
      by (simp add: tasks_loop.simps[of L b tns current] p u)
  next
    case False
    then show ?thesis by (simp add: tasks_loop.simps[of L b tns current])
  qed
qed

lemma february_loop_Inr:
  assumes "february_loop L current end_d = Inr ()" "current \<le> end_d"
  shows "end_d < MAXORD"
  using assms
proof (induction L current end_d rule: february_loop.induct)
  case (1 L current end_d)
  from "1.prems" obtain n where n: "plus_one_day current = Inr n"
    and r: "february_loop L n end_d = Inr ()"
    and nf: "\<not> (month_of L current = 2
            \<and> day_of L current > (if is_leap_year (year_of L current) then 29 else 28))"
    by (subst (asm) february_loop.simps) (auto split: if_splits sum.splits)
  from n have n1: "n = current + 1" and lt: "current < MAXORD"
    by (auto simp: plus_one_day_def split: if_splits)
  show ?case
  proof (cases "n \<le> end_d")
    case True
    show ?thesis using "1.IH"[OF "1.prems"(2) nf n r True] .
  next
    case False
    with n1 "1.prems"(2) have "end_d = current" by simp
    then show ?thesis using lt by simp
  qed
qed

lemma product_map_concat:
  "map (\<lambda>(d, s). (f d, g s)) (List.product xs ys) =
     concat (map (\<lambda>d. map (\<lambda>tn. (f d, tn)) (map g ys)) xs)"
  by (induction xs) (simp_all add: comp_def)

lemma sorted_wrt_product:
  assumes "sorted_wrt (<) (xs :: int list)" "sorted_wrt (<) (ys :: int list)"
  shows "sorted_wrt (\<lambda>(d, s) (d', s'). d < d' \<or> (d = d' \<and> s < s')) (List.product xs ys)"
  using assms
  by (induction xs) (auto simp: sorted_wrt_append sorted_wrt_map)

lemma strict_upto: "sorted_wrt (<) [i..j]"
  using sorted_upto[of i j] distinct_upto[of i j] by (simp add: strict_sorted_iff)

lemma length_upto': "length [i..j] = nat (j - i + 1)"
  by simp



lemma validate_args_Inr:
  assumes "validate_args L a = Inr (sd, ed, st, et, tns)"
  shows "validate_date_range L sd ed = Inr ()"
    and "validate_time (start_time a) = Inr st"
    and "validate_time (end_time a) = Inr et"
    and "generate_time_numbers st et = Inr tns"
    and "strptime L (start_date a) = Some sd"
    and "strptime L (end_date a) = Some ed"
  using assms
  by (auto simp: validate_args_def validate_date_def split: sum.splits option.splits)

lemma spec_digit_digit_char: "d < 10 \<Longrightarrow> spec_digit (int d) = digit_char d"
proof -
  assume d: "d < 10"
  have "(of_char (digit_char d) :: int) = 48 + int d"
    using digit_char_cases[OF d] by (auto simp: digit_char_def)
  then have "char_of (48 + int d) = char_of (of_char (digit_char d) :: int)" by simp
  then show ?thesis by (simp add: spec_digit_def)
qed

lemma fmt02d_spec: "0 \<le> n \<Longrightarrow> n < 100 \<Longrightarrow> fmt02d n = spec_two_digits n"
proof -
  assume a: "0 \<le> n" "n < 100"
  have d: "nat n div 10 < 10" "nat n mod 10 < 10" using a by auto
  have i: "int (nat n div 10) = n div 10" "int (nat n mod 10) = n mod 10"
    using a by (simp_all add: zdiv_int zmod_int)
  show ?thesis
    unfolding fmt02d_two[OF a] spec_two_digits_def
    using spec_digit_digit_char[OF d(1)] spec_digit_digit_char[OF d(2)] by (simp add: i)
qed

lemma time_number_spec:
  assumes "0 \<le> s" "s < 360000"
  shows "time_number s = spec_hhmmss s"
proof -
  note p = time_number_parts[OF assms]
  show ?thesis
    unfolding time_number_split spec_hhmmss_def
    by (simp only: fmt02d_spec[OF p(1,2)] fmt02d_spec[OF p(3,4)] fmt02d_spec[OF p(5,6)])
qed

lemma validate_time_code:
  assumes "0 \<le> s" "s \<le> 86399"
  shows "validate_time (time_number s) = Inr (time_number s)"
proof -
  define h m c where "h = s div 3600" and "m = s mod 3600 div 60" and "c = s mod 60"
  have lt: "s < 360000" using assms by simp
  have p: "0 \<le> h" "h < 100" "0 \<le> m" "m < 100" "0 \<le> c" "c < 100"
    unfolding h_def m_def c_def using time_number_parts[OF assms(1) lt] by blast+
  have r: "h \<le> 23" "m \<le> 59" "c \<le> 59"
    unfolding h_def m_def c_def using assms by simp_all
  have l: "length (fmt02d h) = 2" "length (fmt02d m) = 2" "length (fmt02d c) = 2"
    using p by (simp_all only: fmt02d_length)
  have t: "time_number s = fmt02d h @ fmt02d m @ fmt02d c"
    unfolding h_def m_def c_def by (rule time_number_split)
  have sl: "slice (time_number s) 0 2 = fmt02d h" "slice (time_number s) 2 4 = fmt02d m"
    "slice (time_number s) 4 6 = fmt02d c"
    unfolding t using l by (simp_all add: slice_def)
  have py: "py_int (slice (time_number s) 0 2) = Inr h"
    "py_int (slice (time_number s) 2 4) = Inr m" "py_int (slice (time_number s) 4 6) = Inr c"
    unfolding sl using p by (simp_all only: py_int_fmt02d)
  have f: "length (time_number s) = 6" "list_all is_digit (time_number s)"
    using time_number_format[OF assms(1) lt] by simp_all
  show ?thesis
    unfolding validate_time_def py using f p(1,3,5) r by (simp add: t)
qed

lemma february_loop_ok:
  assumes "end_d < MAXORD"
    and "\<forall>d \<in> set [current..end_d]. month_of L d = 2 \<longrightarrow>
           day_of L d \<le> (if is_leap_year (year_of L d) then 29 else 28)"
  shows "february_loop L current end_d = Inr ()"
  using assms
proof (induction L current end_d rule: february_loop.induct)
  case (1 L current end_d)
  show ?case
  proof (cases "current \<le> end_d")
    case False
    then show ?thesis by (subst february_loop.simps) simp
  next
    case True
    then have p: "plus_one_day current = Inr (current + 1)"
      using "1.prems"(1) by (simp add: plus_one_day_def)
    have u: "[current..end_d] = current # [current + 1..end_d]"
      using True by (simp add: upto_rec1)
    have nf: "\<not> (month_of L current = 2
            \<and> day_of L current > (if is_leap_year (year_of L current) then 29 else 28))"
      using "1.prems"(2) unfolding u by auto
    have rest: "\<forall>d \<in> set [current + 1..end_d]. month_of L d = 2 \<longrightarrow>
           day_of L d \<le> (if is_leap_year (year_of L d) then 29 else 28)"
      using "1.prems"(2) unfolding u by simp
    have "february_loop L (current + 1) end_d = Inr ()"
      by (rule "1.IH"[OF True nf p "1.prems"(1) rest])
    then show ?thesis using True nf p
      by (subst february_loop.simps) (simp del: february_loop.simps)
  qed
qed

text \<open>
  Claim C1, as amended. Take an input whose dates parse to \<open>sd \<le> ed\<close> with \<open>ed\<close> before
  9999-12-31 (the last day a \<^verbatim>\<open>datetime\<close> can hold), and whose times are the codes
  \<open>HHMMSS\<close> of the seconds \<open>ss \<le> es\<close> of a day. The library is assumed to give each
  date of the range a day of February that exists and a print of its own. Then
  \<^verbatim>\<open>modified_script.py\<close> accepts the input, \<^verbatim>\<open>generate_time_numbers\<close> (the same
  function in \<^verbatim>\<open>wm_script.py\<close>) returns the codes \<open>HHMMSS\<close> of the seconds
  \<open>ss..es\<close> in ascending order, and the task loop returns the grid: for each date of
  \<open>sd..ed\<close> in ascending order, for each second of \<open>ss..es\<close> in ascending order, the
  target made of \<open>base_YYYYMMDD\<close> and the code of the second. The list has
  \<open>(ed - sd + 1) * (es - ss + 1)\<close> entries and no entry twice, and it is the list the
  pool of \<^verbatim>\<open>main\<close> is run on.
\<close>

theorem task_generation:
  assumes "strptime L (start_date a) = Some sd" and "strptime L (end_date a) = Some ed"
    and "sd \<le> ed" and "ed < MAXORD"
    and "\<forall>d \<in> set [sd..ed]. month_of L d = 2 \<longrightarrow>
           day_of L d \<le> (if is_leap_year (year_of L d) then 29 else 28)"
    and "distinct (map (strftime L) [sd..ed])"
    and "start_time a = spec_hhmmss ss" and "end_time a = spec_hhmmss es"
    and "0 \<le> ss" and "ss \<le> es" and "es \<le> 86399"
  shows "validate_args L a
           = Inr (sd, ed, start_time a, end_time a, map spec_hhmmss [ss..es])
     \<and> generate_time_numbers (start_time a) (end_time a) = Inr (map spec_hhmmss [ss..es])
     \<and> tasks_loop L (base a) (map spec_hhmmss [ss..es]) sd ed []
           = Inr (map (\<lambda>(d, s). (base a @ ''_'' @ strftime L d, spec_hhmmss s))
                    (List.product [sd..ed] [ss..es]))
     \<and> length (map (\<lambda>(d, s). (base a @ ''_'' @ strftime L d, spec_hhmmss s))
                    (List.product [sd..ed] [ss..es]))
           = nat (ed - sd + 1) * nat (es - ss + 1)
     \<and> distinct (map (\<lambda>(d, s). (base a @ ''_'' @ strftime L d, spec_hhmmss s))
                    (List.product [sd..ed] [ss..es]))
     \<and> sorted_wrt (\<lambda>(d, s) (d', s'). d < d' \<or> (d = d' \<and> s < s'))
           (List.product [sd..ed] [ss..es])
     \<and> (0 < workers a \<longrightarrow>
          main E L a = (Returned, write_output (run_pool E (workers a)
             (map (\<lambda>(d, s). (base a @ ''_'' @ strftime L d, spec_hhmmss s))
                (List.product [sd..ed] [ss..es])) (init_state E))))"
proof -
  let ?P = "List.product [sd..ed] [ss..es]"
  let ?g = "\<lambda>(d, s). (base a @ ''_'' @ strftime L d, spec_hhmmss s)"
  have rs: "0 \<le> ss" "ss < 360000" "ss \<le> 86399" and re: "0 \<le> es" "es < 360000"
    using assms(9,10,11) by simp_all
  have st: "start_time a = time_number ss" and et: "end_time a = time_number es"
    using assms(7,8) time_number_spec[OF rs(1,2)] time_number_spec[OF re] by simp_all
  have codes: "map time_number [ss..es] = map spec_hhmmss [ss..es]"
  proof (rule map_cong[OF refl])
    fix s assume "s \<in> set [ss..es]"
    then have "0 \<le> s" "s < 360000" using rs re by simp_all
    then show "time_number s = spec_hhmmss s" by (rule time_number_spec)
  qed
  have "generate_time_numbers (time_number ss) (time_number es) = Inr (map time_number [ss..es])"
    using assms(10)
    by (simp add: generate_time_numbers_def to_seconds_time_number[OF rs(1,2)]
          to_seconds_time_number[OF re])
  then have gen:
    "generate_time_numbers (start_time a) (end_time a) = Inr (map spec_hhmmss [ss..es])"
    by (simp only: st et codes)
  have vs: "validate_time (start_time a) = Inr (start_time a)"
    unfolding st by (rule validate_time_code[OF rs(1,3)])
  have ve: "validate_time (end_time a) = Inr (end_time a)"
    unfolding et by (rule validate_time_code[OF re(1) assms(11)])
  have feb: "validate_date_range L sd ed = Inr ()"
    using assms(3) february_loop_ok[OF assms(4,5)] by (simp add: validate_date_range_def)
  have val: "validate_args L a
      = Inr (sd, ed, start_time a, end_time a, map spec_hhmmss [ss..es])"
    by (simp add: validate_args_def validate_date_def assms(1,2) feb vs ve gen)
  have loop: "tasks_loop L (base a) (map spec_hhmmss [ss..es]) sd ed [] = Inr (map ?g ?P)"
    unfolding tasks_loop_eq[OF assms(4)] product_map_concat filehead_of_def by simp
  have len: "length (map ?g ?P) = nat (ed - sd + 1) * nat (es - ss + 1)"
    by simp
  have inj: "inj_on ?g (set ?P)"
  proof (rule inj_onI)
    fix x y assume x: "x \<in> set ?P" and y: "y \<in> set ?P" and e: "?g x = ?g y"
    obtain d s where xx: "x = (d, s)" by (cases x)
    obtain d' s' where yy: "y = (d', s')" by (cases y)
    from x y xx yy rs re have r: "s \<in> {0..<360000}" "s' \<in> {0..<360000}"
      and dd: "d \<in> set [sd..ed]" "d' \<in> set [sd..ed]" by auto
    from e xx yy have f: "strftime L d = strftime L d'" and t: "spec_hhmmss s = spec_hhmmss s'"
      by simp_all
    from f dd assms(6) have "d = d'" by (simp add: distinct_map inj_on_def)
    moreover have "time_number s = time_number s'"
      using t r by (simp add: time_number_spec)
    with inj_onD[OF time_number_inj _ r] have "s = s'" by simp
    ultimately show "x = y" using xx yy by simp
  qed
  have dist: "distinct (map ?g ?P)"
    using inj by (simp add: distinct_map distinct_product)
  have srt: "sorted_wrt (\<lambda>(d, s) (d', s'). d < d' \<or> (d = d' \<and> s < s')) ?P"
    by (rule sorted_wrt_product[OF strict_upto strict_upto])
  have run: "0 < workers a \<longrightarrow>
      main E L a = (Returned, write_output (run_pool E (workers a) (map ?g ?P) (init_state E)))"
    by (simp add: main_def val loop)
  show ?thesis using val gen loop len dist srt run by blast
qed

text \<open>
  The theorem at \<^verbatim>\<open>--base b --start_date 20240101 --end_date 20240102 --start_time 000000
  --end_time 000002\<close>: six targets.
\<close>

theorem task_generation_witness:
  "validate_args gregorian example_args
     = Inr (738886, 738887, ''000000'', ''000002'', [''000000'', ''000001'', ''000002''])
   \<and> generate_time_numbers ''000000'' ''000002'' = Inr [''000000'', ''000001'', ''000002'']
   \<and> tasks_loop gregorian ''b'' [''000000'', ''000001'', ''000002''] 738886 738887 []
     = Inr [(''b_20240101'', ''000000''), (''b_20240101'', ''000001''), (''b_20240101'', ''000002''),
            (''b_20240102'', ''000000''), (''b_20240102'', ''000001''), (''b_20240102'', ''000002'')]
   \<and> distinct [(''b_20240101'', ''000000''), (''b_20240101'', ''000001''), (''b_20240101'', ''000002''),
            (''b_20240102'', ''000000''), (''b_20240102'', ''000001''), (''b_20240102'', ''000002'')]"
proof -
  have h: "strptime gregorian (start_date example_args) = Some 738886"
    "strptime gregorian (end_date example_args) = Some 738887"
    "\<forall>d \<in> set [738886..738887]. month_of gregorian d = 2 \<longrightarrow>
           day_of gregorian d \<le> (if is_leap_year (year_of gregorian d) then 29 else 28)"
    "distinct (map (strftime gregorian) [738886..738887])"
    "start_time example_args = spec_hhmmss 0" "end_time example_args = spec_hhmmss 2"
    by code_simp+
  have m: "(738887::int) < MAXORD" by (simp add: MAXORD_def)
  have f: "base example_args = ''b''" "start_time example_args = ''000000''"
    "end_time example_args = ''000002''"
    by (simp_all add: example_args_def)
  have u: "[738886..738887] = [738886, 738887::int]" "[0..2] = [0, 1, 2::int]"
    by code_simp+
  have sf: "strftime gregorian 738886 = ''20240101''" "strftime gregorian 738887 = ''20240102''"
    by code_simp+
  have sp: "spec_hhmmss 0 = ''000000''" "spec_hhmmss 1 = ''000001''" "spec_hhmmss 2 = ''000002''"
    by code_simp+
  have c: "map spec_hhmmss [0..2] = [''000000'', ''000001'', ''000002'']"
    unfolding u by (simp add: sp)
  have g: "map (\<lambda>(d, s). (''b'' @ ''_'' @ strftime gregorian d, spec_hhmmss s))
             (List.product [738886..738887] [0..2])
     = [(''b_20240101'', ''000000''), (''b_20240101'', ''000001''), (''b_20240101'', ''000002''),
        (''b_20240102'', ''000000''), (''b_20240102'', ''000001''), (''b_20240102'', ''000002'')]"
    unfolding u by (simp add: sf sp)
  from task_generation[OF h(1,2) _ m h(3,4,5,6), of example_env]
  show ?thesis unfolding f c g by simp
qed

text \<open>
  Against the claim as it stood: \<^verbatim>\<open>--start_date 99991231 --end_date 99991231\<close> is a
  range of one valid date with valid times, and \<^verbatim>\<open>modified_script.py\<close> generates no
  target for it: the loop of \<^verbatim>\<open>validate_date_range\<close> adds a day to 9999-12-31, and the
  \<^verbatim>\<open>OverflowError\<close> leaves \<^verbatim>\<open>main\<close> before any task is built.
\<close>

theorem task_generation_counterexample:
  "strptime gregorian (start_date last_day_args) = Some MAXORD
   \<and> strptime gregorian (end_date last_day_args) = Some MAXORD
   \<and> validate_time (start_time last_day_args) = Inr ''000000''
   \<and> validate_time (end_time last_day_args) = Inr ''000002''
   \<and> validate_date_range gregorian MAXORD MAXORD = Inl OverflowError
   \<and> validate_args gregorian last_day_args = Inl OverflowError
   \<and> fst (main example_env gregorian last_day_args) = Uncaught OverflowError
   \<and> effects (snd (main example_env gregorian last_day_args)) = []"
  by code_simp

section \<open>The retry policy\<close>

lemma wm_session_fields:
  "total wm_create_retry_session = 3"
  "set (status_forcelist wm_create_retry_session) = {500..<600}"
  "allowed_methods wm_create_retry_session = [''HEAD'']"
  by (simp_all only: wm_create_retry_session_def retry.select_convs set_upt)

lemma session_fields:
  "total create_retry_session = 3"
  "status_forcelist create_retry_session = [500, 502, 503, 504]"
  "allowed_methods create_retry_session = [''HEAD'']"
  by (simp_all only: create_retry_session_def retry.select_convs)

lemma is_retry_wm: "is_retry wm_create_retry_session ''HEAD'' st = (500 \<le> st \<and> st < 600)"
  unfolding is_retry_def wm_session_fields by simp

lemma is_retry_modified:
  "is_retry create_retry_session ''HEAD'' st = (st = 500 \<or> st = 502 \<or> st = 503 \<or> st = 504)"
  unfolding is_retry_def session_fields by auto

lemma urlopen_attempts:
  "0 \<le> left \<Longrightarrow> snd (urlopen R rs left k) \<le> k + nat left + 1"
proof (induction R rs left k rule: urlopen.induct)
  case (1 R rs left k)
  show ?case
  proof (cases "left - 1 < 0")
    case True
    then show ?thesis
      by (subst urlopen.simps) (simp split: raw.splits)
  next
    case False
    then have n: "nat left = Suc (nat (left - 1))" by linarith
    from False have l: "0 \<le> left - 1" by simp
    show ?thesis
    proof (cases "rs k")
      case (Http st)
      show ?thesis
      proof (cases "is_retry R ''HEAD'' st")
        case True
        from "1.IH"(1)[OF Http True False l] show ?thesis
          by (subst urlopen.simps) (simp add: Http True False n)
      next
        case f: False
        then show ?thesis by (subst urlopen.simps) (simp add: Http)
      qed
    next
      case ConnError
      from "1.IH"(2)[OF ConnError False l] show ?thesis
        by (subst urlopen.simps) (simp add: ConnError False n)
    qed
  qed
qed

lemma urlopen_response:
  "fst (urlopen R rs left k) = Response st \<Longrightarrow> \<not> is_retry R ''HEAD'' st"
proof (induction R rs left k rule: urlopen.induct)
  case (1 R rs left k)
  from "1.prems" show ?case
    by (subst (asm) urlopen.simps) (auto split: raw.splits if_splits dest: "1.IH")
qed

lemma urlopen_immediate:
  "rs k = Http st \<Longrightarrow> \<not> is_retry R ''HEAD'' st \<Longrightarrow> urlopen R rs left k = (Response st, Suc k)"
  by (subst urlopen.simps) simp

lemma urlopen_retried:
  assumes "Suc k < snd (urlopen R rs left k)"
  shows "rs k = ConnError \<or> (\<exists>st. rs k = Http st \<and> is_retry R ''HEAD'' st)"
  using assms by (subst (asm) urlopen.simps) (auto split: raw.splits if_splits)

text \<open>
  Claim C6, as amended. A probe is retried only after a transient outcome: a failed
  connection, or a response whose status is in the session's \<open>status_forcelist\<close>. In
  \<^verbatim>\<open>wm_script.py\<close> that list is exactly 500..599; in \<^verbatim>\<open>modified_script.py\<close> it is
  exactly 500, 502, 503 and 504. \<^verbatim>\<open>Retry(total=3)\<close> allows three retries, so at most
  four attempts are made; a status outside the list is returned after its attempt, and
  a status in the list is never returned.
\<close>

theorem retry_policy:
  "(is_retry wm_create_retry_session ''HEAD'' st = (500 \<le> st \<and> st < 600))
   \<and> (is_retry create_retry_session ''HEAD'' st = (st = 500 \<or> st = 502 \<or> st = 503 \<or> st = 504))
   \<and> total wm_create_retry_session = 3 \<and> total create_retry_session = 3
   \<and> (0 \<le> total R \<longrightarrow> snd (urlopen R rs (total R) 0) \<le> nat (total R) + 1)
   \<and> (rs 0 = Http st \<and> \<not> is_retry R ''HEAD'' st \<longrightarrow> urlopen R rs (total R) 0 = (Response st, 1))
   \<and> (1 < snd (urlopen R rs (total R) 0) \<longrightarrow>
         rs 0 = ConnError \<or> (\<exists>c. rs 0 = Http c \<and> is_retry R ''HEAD'' c))
   \<and> (fst (urlopen R rs (total R) 0) = Response st \<longrightarrow> \<not> is_retry R ''HEAD'' st)"
proof -
  have a: "0 \<le> total R \<longrightarrow> snd (urlopen R rs (total R) 0) \<le> nat (total R) + 1"
    using urlopen_attempts[of "total R" R rs 0] by simp
  have b: "rs 0 = Http st \<and> \<not> is_retry R ''HEAD'' st \<longrightarrow>
      urlopen R rs (total R) 0 = (Response st, 1)"
    using urlopen_immediate[of rs 0 st R "total R"] by simp
  have c: "1 < snd (urlopen R rs (total R) 0) \<longrightarrow>
         rs 0 = ConnError \<or> (\<exists>c. rs 0 = Http c \<and> is_retry R ''HEAD'' c)"
    using urlopen_retried[of 0 R rs "total R"] by simp
  have d: "fst (urlopen R rs (total R) 0) = Response st \<longrightarrow> \<not> is_retry R ''HEAD'' st"
    using urlopen_response[of R rs "total R" 0 st] by blast
  show ?thesis
    using is_retry_wm[of st] is_retry_modified[of st] wm_session_fields(1) session_fields(1) a b c d
    by blast
qed

lemma flaky_run: "urlopen wm_create_retry_session flaky 3 0 = (Response 200, 4)"
proof -
  have 1: "urlopen wm_create_retry_session flaky 0 (Suc (Suc (Suc 0))) = (Response 200, 4)"
    by (subst urlopen.simps) (simp add: flaky_def is_retry_wm)
  have 2: "urlopen wm_create_retry_session flaky 1 (Suc (Suc 0)) = (Response 200, 4)"
    by (subst urlopen.simps) (simp add: flaky_def is_retry_wm 1)
  have 3: "urlopen wm_create_retry_session flaky 2 (Suc 0) = (Response 200, 4)"
    by (subst urlopen.simps) (simp add: flaky_def is_retry_wm 2)
  show ?thesis
    by (subst urlopen.simps) (simp add: flaky_def is_retry_wm 3)
qed

theorem retry_policy_witness:
  "snd (urlopen wm_create_retry_session flaky (total wm_create_retry_session) 0) \<le> 4
   \<and> fst (urlopen wm_create_retry_session flaky (total wm_create_retry_session) 0) = Response 200
   \<and> \<not> is_retry wm_create_retry_session ''HEAD'' 200
   \<and> is_retry wm_create_retry_session ''HEAD'' 503"
proof -
  have t: "total wm_create_retry_session = 3" by (rule wm_session_fields(1))
  from retry_policy[of 200 wm_create_retry_session flaky] retry_policy[of 503]
  show ?thesis unfolding t flaky_run by simp
qed

theorem retry_policy_counterexample:
  "\<not> is_retry create_retry_session ''HEAD'' 501
   \<and> urlopen wm_create_retry_session flaky (total wm_create_retry_session) 0 = (Response 200, 4)"
  unfolding wm_session_fields(1) flaky_run by (simp add: is_retry_modified)

section \<open>Invariants of a run\<close>

lemma foldl_invariant:
  assumes "P s" and "\<And>s x. P s \<Longrightarrow> P (f s x)"
  shows "P (foldl f s xs)"
  using assms(1) by (induction xs arbitrary: s) (simp_all add: assms(2))

lemma safe_pstep:
  assumes "safe Q s" "pstep Q s s'"
  shows "safe Q s'"
  using assms unfolding safe_def pstep_def
  by (auto simp: is_write_def)

lemma safe_mono:
  assumes "safe Q s" "\<And>fh tn. Q fh tn \<Longrightarrow> Q' fh tn"
  shows "safe Q' s"
  using assms unfolding safe_def by blast

lemma check_timeout_snd [simp]:
  "snd (check_timeout E G s) = s\<lparr>ticks := Suc (ticks s)\<rparr>"
  by (simp add: check_timeout_def remaining_time_def)

lemma batch_step_pstep:
  "pstep (\<lambda>f tn. f = fh \<and> tn \<in> set tns) s (batch_step E G w fh tns s x)"
  by (cases x)
     (auto simp: pstep_def signal_handler_def check_wm_link_enter_def
           check_wm_link_request_def Let_def
           split: task_status.splits option.splits)

lemma pool_step_pstep:
  "pstep (\<lambda>f tn. (f, tn) \<in> set tasks) s (pool_step E w tasks s x)"
  by (cases x)
     (auto simp: pstep_def signal_handler_def check_link_enter_def check_link_request_def
           check_link_return_def Let_def
           split: task_status.splits option.splits)

lemma pstep_mono:
  assumes "pstep Q s s'" "\<And>fh tn. Q fh tn \<Longrightarrow> Q' fh tn"
  shows "pstep Q' s s'"
  using assms unfolding pstep_def by blast









lemma pstep_files: "pstep Q s s' \<Longrightarrow> files s' = files s"
  by (simp add: pstep_def)

lemma run_batch_safe:
  assumes "safe Q s" "\<And>tn. tn \<in> set tns \<Longrightarrow> Q fh tn"
  shows "safe Q (run_batch E G w k fh tns s)"
  unfolding run_batch_def
proof (rule foldl_invariant)
  show "safe Q (s\<lparr>status := replicate (length tns) Pending, active := tns \<noteq> []\<rparr>)"
    using assms(1) by (simp add: safe_def)
next
  fix t x assume "safe Q t"
  moreover have "pstep Q t (batch_step E G w fh tns t x)"
    by (rule pstep_mono[OF batch_step_pstep]) (simp add: assms(2))
  ultimately show "safe Q (batch_step E G w fh tns t x)" by (rule safe_pstep)
qed

lemma run_batch_files: "files (run_batch E G w k fh tns s) = files s"
  unfolding run_batch_def
proof (rule foldl_invariant[where P = "\<lambda>t::state. files t = files s"])
  show "files (s\<lparr>status := replicate (length tns) Pending, active := tns \<noteq> []\<rparr>) = files s"
    by simp
next
  fix t :: state and x assume "files t = files s"
  then show "files (batch_step E G w fh tns t x) = files s"
    using pstep_files[OF batch_step_pstep, of E G w fh tns t x] by simp
qed


lemma save_progress_safe: "safe Q s \<Longrightarrow> safe Q (save_progress L G d s)"
  by (auto simp: safe_def save_progress_def is_write_def)


lemma ticks_safe [simp]: "safe Q (s\<lparr>ticks := n\<rparr>) = safe Q s"
  by (simp add: safe_def)

lemma ticks_links [simp]: "links_sound E R (s\<lparr>ticks := n\<rparr>) = links_sound E R s"
  by (simp add: links_sound_def)

text \<open>What the date loop keeps.\<close>

lemma date_loop_invariant:
  assumes "P s"
    and "\<And>t n. P t \<Longrightarrow> P (t\<lparr>ticks := n\<rparr>)"
    and "\<And>t d. P t \<Longrightarrow> P (save_progress L G d t)"
    and "\<And>t d j tns. P t \<Longrightarrow> current \<le> d \<Longrightarrow> d \<le> end_d \<Longrightarrow>
           P (run_batch E G (workers a) j (filehead_of L (base a) d) tns t)"
  shows "P (snd (date_loop E L a G end_d k current s))"
  using assms
proof (induction E L a G end_d k current s rule: date_loop.induct)
  case (1 E L a G end_d k current s)
  note tick = "1.prems"(2) and save = "1.prems"(3) and batch = "1.prems"(4)
  have s0: "P (snd (check_timeout E G s))"
    using tick[OF "1.prems"(1)] by simp
  show ?case
  proof (cases "current \<le> end_d \<and> \<not> should_stop s")
    case False
    then show ?thesis using "1.prems"(1) by (subst date_loop.simps) auto
  next
    case True
    show ?thesis
    proof (cases "fst (check_timeout E G s)")
      case t: True
      show ?thesis using True t save[OF s0, of current]
        by (subst date_loop.simps) simp
    next
      case nt: False
      show ?thesis
      proof (cases "generate_time_numbers (start_time a) (end_time a)")
        case (Inl e)
        show ?thesis using True nt Inl s0
          by (subst date_loop.simps) simp
      next
        case (Inr tns)
        show ?thesis
        proof (cases "workers a \<le> 0")
          case w: True
          show ?thesis using True nt Inr w s0
            by (subst date_loop.simps) simp
        next
          case w: False
          let ?s1 = "run_batch E G (workers a) k (filehead_of L (base a) current) tns
                       (snd (check_timeout E G s))"
          have s1: "P ?s1"
            by (rule batch[OF s0]) (use True in auto)
          show ?thesis
          proof (cases "plus_one_day current")
            case e: (Inl e)
            show ?thesis using True nt Inr w e s1
              by (subst date_loop.simps) simp
          next
            case n: (Inr next_d)
            then have nd: "next_d = current + 1"
              by (auto simp: plus_one_day_def split: if_splits)
            have "P (snd (date_loop E L a G end_d (Suc k) next_d ?s1))"
            proof (rule "1.IH"[OF True nt Inr w n s1 tick save])
              fix t d j tns' assume "P t" "next_d \<le> d" "d \<le> end_d"
              then show "P (run_batch E G (workers a) j (filehead_of L (base a) d) tns' t)"
                using batch[of t d j tns'] nd by simp
            qed
            then show ?thesis using True nt Inr w n
              by (subst date_loop.simps) simp
          qed
        qed
      qed
    qed
  qed
qed

lemma date_loop_safe:
  assumes "safe Q s"
    and "\<And>d tn. current \<le> d \<Longrightarrow> d \<le> end_d \<Longrightarrow> Q (filehead_of L (base a) d) tn"
  shows "safe Q (snd (date_loop E L a G end_d k current s))"
  by (rule date_loop_invariant[where P = "safe Q", OF assms(1)])
     (simp_all add: save_progress_safe run_batch_safe assms(2))


lemma init_state_safe: "safe Q (init_state E)"
  by (simp add: safe_def init_state_def is_write_def)


lemma TimeoutGuard_snd [simp]: "snd (TimeoutGuard E m p s) = s\<lparr>ticks := Suc (ticks s)\<rparr>"
  by (simp add: TimeoutGuard_def)

lemma process_date_range_cases:
  obtains (failed) e where "process_date_range E L a G s = (Inl e, s)"
  | (looped) sd ed first where "strptime L (start_date a) = Some sd"
      "strptime L (end_date a) = Some ed" "effective_start L G sd = Inr first"
      "process_date_range E L a G s = date_loop E L a G ed 0 first s"
proof (cases "strptime L (start_date a)")
  case None
  then show ?thesis using failed by (simp add: process_date_range_def)
next
  case sd: (Some sd)
  show ?thesis
  proof (cases "strptime L (end_date a)")
    case None
    then show ?thesis using failed sd by (simp add: process_date_range_def)
  next
    case ed: (Some ed)
    show ?thesis
    proof (cases "effective_start L G sd")
      case (Inl e)
      then show ?thesis using failed sd ed by (simp add: process_date_range_def)
    next
      case (Inr first)
      then show ?thesis using looped[OF sd ed Inr] sd ed by (simp add: process_date_range_def)
    qed
  qed
qed

lemma process_date_range_safe:
  assumes "safe Q s"
    and "\<And>sd ed first d tn. strptime L (start_date a) = Some sd \<Longrightarrow>
           strptime L (end_date a) = Some ed \<Longrightarrow> effective_start L G sd = Inr first \<Longrightarrow>
           first \<le> d \<Longrightarrow> d \<le> ed \<Longrightarrow> Q (filehead_of L (base a) d) tn"
  shows "safe Q (snd (process_date_range E L a G s))"
proof (cases rule: process_date_range_cases[of E L a G s])
  case (failed e)
  then show ?thesis using assms(1) by simp
next
  case (looped sd ed first)
  show ?thesis unfolding looped(4)
    by (rule date_loop_safe[OF assms(1)]) (rule assms(2)[OF looped(1,2,3)])
qed


lemma wm_main_state:
  "snd (wm_main E L a) =
     write_output (snd (process_date_range E L a
        (fst (TimeoutGuard E (timeout a) (resume_file a) (init_state E)))
        ((init_state E)\<lparr>ticks := Suc 0\<rparr>)))"
  by (simp add: wm_main_def Let_def init_state_def)

section \<open>The pool of modified\_script.py\<close>




lemma has_outcome_simps [simp]:
  "has_outcome (Running r)" "has_outcome (Finished (Some r))" "has_outcome (Yielded (Some r))"
  "\<not> has_outcome Pending" "\<not> has_outcome Cancelled" "\<not> has_outcome (Finished None)"
  "\<not> has_outcome (Yielded None)" "\<not> has_outcome Entered"
  by (simp_all add: has_outcome_def)

lemma done_ok_simps [simp]:
  "\<not> done_ok (Running r)" "\<not> done_ok Pending" "\<not> done_ok Cancelled" "\<not> done_ok Entered"
  "done_ok (Finished ro) = (ro = Some (Response 200))"
  "done_ok (Yielded ro) = (ro = Some (Response 200))"
  by (auto simp: done_ok_def)









lemma is_busy_simps [simp]:
  "is_busy Entered" "is_busy (Running r)" "\<not> is_busy Pending" "\<not> is_busy (Finished ro)"
  "\<not> is_busy (Yielded ro)" "\<not> is_busy Cancelled"
  by (simp_all add: is_busy_def)

lemma is_running_simps [simp]:
  "is_running (Running r)" "\<not> is_running Pending" "\<not> is_running (Finished ro)"
  "\<not> is_running (Yielded ro)" "\<not> is_running Cancelled" "\<not> is_running Entered"
  by (simp_all add: is_running_def)

lemma is_entered_simps [simp]:
  "is_entered Entered" "\<not> is_entered (Running r)" "\<not> is_entered Pending"
  "\<not> is_entered (Finished ro)" "\<not> is_entered (Yielded ro)" "\<not> is_entered Cancelled"
  by (simp_all add: is_entered_def)












section \<open>The run of wm\_script.py\<close>

lemma date_loop_stop:
  "\<not> (current \<le> end_d \<and> \<not> should_stop s) \<Longrightarrow>
     date_loop E L a G end_d k current s = (Inr current, s)"
  by (subst date_loop.simps) auto

lemma date_loop_timeout:
  "current \<le> end_d \<Longrightarrow> \<not> should_stop s \<Longrightarrow> fst (check_timeout E G s) \<Longrightarrow>
     date_loop E L a G end_d k current s =
       (Inr current, save_progress L G current (s\<lparr>ticks := Suc (ticks s)\<rparr>))"
  by (subst date_loop.simps) simp

lemma date_loop_bad_times:
  "current \<le> end_d \<Longrightarrow> \<not> should_stop s \<Longrightarrow> \<not> fst (check_timeout E G s) \<Longrightarrow>
   generate_time_numbers (start_time a) (end_time a) = Inl e \<Longrightarrow>
     date_loop E L a G end_d k current s = (Inl e, s\<lparr>ticks := Suc (ticks s)\<rparr>)"
  by (subst date_loop.simps) simp

lemma wm_main_eq:
  "wm_main E L a =
     (wm_report L a (fst (process_date_range E L a (guard_of E a) ((init_state E)\<lparr>ticks := Suc 0\<rparr>))),
      write_output (snd (process_date_range E L a (guard_of E a) ((init_state E)\<lparr>ticks := Suc 0\<rparr>))))"
  by (simp add: wm_main_def Let_def guard_of_def init_state_def)

lemma guard_of_fields:
  "last_progress (guard_of E a) = (case files0 E (resume_file a) of None \<Rightarrow> None | Some c \<Rightarrow> Some (strip c))"
  "g_resume_file (guard_of E a) = resume_file a"
  "max_runtime (guard_of E a) = timeout a"
  "g_start_time (guard_of E a) = clock E 0"
  by (simp_all add: guard_of_def TimeoutGuard_def load_progress_def init_state_def)

section \<open>Whole runs\<close>

lemma run_pool_safe:
  assumes "safe Q s" "\<And>fh tn. (fh, tn) \<in> set tasks \<Longrightarrow> Q fh tn"
  shows "safe Q (run_pool E w tasks s)"
  unfolding run_pool_def
proof (rule foldl_invariant)
  show "safe Q (s\<lparr>status := replicate (length tasks) Pending, active := tasks \<noteq> []\<rparr>)"
    using assms(1) by (simp add: safe_def)
next
  fix t x assume "safe Q t"
  moreover have "pstep Q t (pool_step E w tasks t x)"
    by (rule pstep_mono[OF pool_step_pstep]) (simp add: assms(2))
  ultimately show "safe Q (pool_step E w tasks t x)" by (rule safe_pstep)
qed




lemma main_cases:
  obtains (stopped) "fst (main E L a) \<noteq> Returned" "snd (main E L a) = init_state E"
  | (ran) sd ed st et tns tasks where "validate_args L a = Inr (sd, ed, st, et, tns)"
      "tasks_loop L (base a) tns sd ed [] = Inr tasks" "0 < workers a"
      "main E L a = (Returned, write_output (run_pool E (workers a) tasks (init_state E)))"
proof (cases "validate_args L a")
  case (Inl e)
  then show ?thesis using stopped by (cases e) (simp_all add: main_def)
next
  case (Inr v)
  obtain sd ed st et tns where v: "v = (sd, ed, st, et, tns)" by (cases v)
  show ?thesis
  proof (cases "tasks_loop L (base a) tns sd ed []")
    case (Inl e)
    then show ?thesis using stopped Inr v by (simp add: main_def)
  next
    case t: (Inr tasks)
    show ?thesis
    proof (cases "workers a \<le> 0")
      case True
      then show ?thesis using stopped Inr v t by (simp add: main_def)
    next
      case False
      then show ?thesis using ran[of sd ed st et tns tasks] Inr v t by (simp add: main_def)
    qed
  qed
qed

lemma write_output_safe_parts:
  assumes "safe Q s"
  shows "filter is_write (effects (write_output s)) = [WriteOutput (join_lines (VALID_LINKS s))]"
    and "should_stop (write_output s) = (Interrupt \<in> set (effects (write_output s)))"
    and "files (write_output s) OUTPUT_FILE = Some (join_lines (VALID_LINKS s))"
    and "VALID_LINKS (write_output s) = VALID_LINKS s"
    and "\<And>fh tn. Probe fh tn \<in> set (effects (write_output s)) \<Longrightarrow> Q fh tn"
proof -
  from assms have nw: "list_all (\<lambda>e. \<not> is_write e) (effects s)"
    and q: "should_stop s = (Interrupt \<in> set (effects s))"
    and pq: "\<And>fh tn. Probe fh tn \<in> set (effects s) \<Longrightarrow> Q fh tn"
    unfolding safe_def by blast+
  from nw have "filter is_write (effects s) = []" by (simp add: list_all_iff filter_empty_conv)
  then show "filter is_write (effects (write_output s)) = [WriteOutput (join_lines (VALID_LINKS s))]"
    by (simp add: write_output_def is_write_def)
  show "should_stop (write_output s) = (Interrupt \<in> set (effects (write_output s)))"
    using q by (simp add: write_output_def)
  show "files (write_output s) OUTPUT_FILE = Some (join_lines (VALID_LINKS s))"
    by (simp add: write_output_def)
  show "VALID_LINKS (write_output s) = VALID_LINKS s" by (simp add: write_output_def)
  show "\<And>fh tn. Probe fh tn \<in> set (effects (write_output s)) \<Longrightarrow> Q fh tn"
    using pq by (auto simp: write_output_def)
qed


section \<open>Checkpoints and the time budget\<close>

lemma effective_start_checkpoint:
  assumes "files0 E (resume_file a) = Some c" "strip c \<noteq> []" "strptime L (strip c) = Some D2"
  shows "effective_start L (guard_of E a) D1 = Inr (if D1 < D2 then D2 else D1)"
  using assms by (simp add: effective_start_def guard_of_fields)

lemma process_date_range_loop:
  assumes "strptime L (start_date a) = Some D1" "strptime L (end_date a) = Some De"
    "effective_start L G D1 = Inr first"
  shows "process_date_range E L a G s = date_loop E L a G De 0 first s"
  using assms by (simp add: process_date_range_def)

lemma init_no_probe: "list_all (\<lambda>e. \<not> is_probe e) (effects (init_state E))"
  by (simp add: init_state_def is_probe_def)

text \<open>
  Claim C10. In \<^verbatim>\<open>wm_script.py\<close>, when the checkpoint file holds a date after the
  requested end date, the loop is never entered: no request is sent, the date returned by
  \<^verbatim>\<open>process_date_range\<close> is after the end date, \<^verbatim>\<open>main\<close> reports the scan as
  completely done (exit status 0), and the result file is written, empty.
\<close>

theorem checkpoint_beyond_end:
  assumes "files0 E (resume_file a) = Some c" and "strip c \<noteq> []"
    and "strptime L (strip c) = Some D2"
    and "strptime L (start_date a) = Some D1"
    and "strptime L (end_date a) = Some De"
    and "De < D2"
  shows "fst (wm_main E L a) = AllDone \<and> exit_code (fst (wm_main E L a)) = 0
     \<and> fst (process_date_range E L a (guard_of E a) ((init_state E)\<lparr>ticks := Suc 0\<rparr>))
         = Inr (max D1 D2)
     \<and> De < max D1 D2
     \<and> list_all (\<lambda>e. \<not> is_probe e) (effects (snd (wm_main E L a)))
     \<and> VALID_LINKS (snd (wm_main E L a)) = []
     \<and> filter is_write (effects (snd (wm_main E L a))) = [WriteOutput []]
     \<and> files (snd (wm_main E L a)) OUTPUT_FILE = Some []"
proof -
  let ?s1 = "(init_state E)\<lparr>ticks := Suc 0\<rparr>"
  have es: "effective_start L (guard_of E a) D1 = Inr (max D1 D2)"
    unfolding effective_start_checkpoint[OF assms(1,2,3)] by (simp add: max_def)
  have lt: "De < max D1 D2" using assms(6) by simp
  have p: "process_date_range E L a (guard_of E a) ?s1 = (Inr (max D1 D2), ?s1)"
    unfolding process_date_range_loop[OF assms(4,5) es]
    by (rule date_loop_stop) (use lt in linarith)
  have nle: "\<not> max D1 D2 \<le> De" using lt by linarith
  have r: "wm_report L a (Inr (max D1 D2)) = AllDone"
    by (simp only: wm_report_def assms(5) sum.case option.case nle if_False)
  have m: "wm_main E L a = (AllDone, write_output ?s1)"
    unfolding wm_main_eq p using r by simp
  show ?thesis
    unfolding m p using lt
    by (simp add: exit_code_def write_output_def init_state_def is_probe_def is_write_def)
qed

text \<open>
  Claim C5. At the top of a date's batch (the loop condition holds), when fewer than 300
  seconds remain, the loop runs no batch: it writes the current date, printed with
  \<^verbatim>\<open>%Y%m%d\<close>, to the checkpoint file and returns that date; nothing else changes but
  the clock reading taken. \<^verbatim>\<open>main\<close> then reports a partial run.
\<close>

theorem time_budget_cutoff:
  assumes "current \<le> end_d" and "\<not> should_stop s" and "fst (remaining_time E G s) < 300"
  shows "date_loop E L a G end_d k current s =
       (Inr current,
        s\<lparr>ticks := Suc (ticks s),
          files := (files s)(g_resume_file G \<mapsto> strftime L current),
          effects := effects s @ [SaveProgress (strftime L current)]\<rparr>)
     \<and> (strptime L (end_date a) = Some end_d \<longrightarrow>
          wm_report L a (Inr current) = PartlyDone (strftime L current)
          \<and> exit_code (wm_report L a (Inr current)) = 0)"
proof -
  have t: "fst (check_timeout E G s)" using assms(3) by (simp add: check_timeout_def)
  show ?thesis
    unfolding date_loop_timeout[OF assms(1,2) t]
    using assms(1) by (simp add: save_progress_def wm_report_def exit_code_def)
qed

text \<open>
  Claim C4. When the checkpoint file holds a date \<open>D2\<close>, the loop starts at \<open>D2\<close> if
  \<open>D2\<close> is later than the requested start date \<open>D1\<close>, and at \<open>D1\<close> otherwise; every
  request of the run is for the file head of a date between that start and the end date.
\<close>

theorem resume_from_checkpoint:
  assumes "files0 E (resume_file a) = Some c" and "strip c \<noteq> []"
    and "strptime L (strip c) = Some D2"
    and "strptime L (start_date a) = Some D1"
    and "strptime L (end_date a) = Some De"
  shows "(D1 < D2 \<longrightarrow> effective_start L (guard_of E a) D1 = Inr D2)
     \<and> (\<not> D1 < D2 \<longrightarrow> effective_start L (guard_of E a) D1 = Inr D1)
     \<and> process_date_range E L a (guard_of E a) s =
         date_loop E L a (guard_of E a) De 0 (if D1 < D2 then D2 else D1) s
     \<and> (\<forall>fh tn. Probe fh tn \<in> set (effects (snd (wm_main E L a))) \<longrightarrow>
          (\<exists>d. (if D1 < D2 then D2 else D1) \<le> d \<and> d \<le> De \<and> fh = filehead_of L (base a) d))"
proof -
  let ?first = "if D1 < D2 then D2 else D1"
  let ?Q = "\<lambda>fh (tn::string). \<exists>d. ?first \<le> d \<and> d \<le> De \<and> fh = filehead_of L (base a) d"
  note es = effective_start_checkpoint[OF assms(1,2,3), where ?D1.0 = D1]
  have p: "process_date_range E L a (guard_of E a) s =
      date_loop E L a (guard_of E a) De 0 ?first s"
    by (rule process_date_range_loop[OF assms(4,5) es])
  have "safe ?Q (snd (process_date_range E L a (guard_of E a) ((init_state E)\<lparr>ticks := Suc 0\<rparr>)))"
  proof (rule process_date_range_safe)
    show "safe ?Q ((init_state E)\<lparr>ticks := Suc 0\<rparr>)" by (simp add: init_state_safe)
  next
    fix sd ed first d tn
    assume "strptime L (start_date a) = Some sd" "strptime L (end_date a) = Some ed"
      "effective_start L (guard_of E a) sd = Inr first" "first \<le> d" "d \<le> ed"
    then show "\<exists>da. ?first \<le> da \<and> da \<le> De \<and> filehead_of L (base a) d = filehead_of L (base a) da"
      using assms(4,5) es by auto
  qed
  from write_output_safe_parts(5)[OF this]
  have "\<forall>fh tn. Probe fh tn \<in> set (effects (snd (wm_main E L a))) \<longrightarrow> ?Q fh tn"
    unfolding wm_main_eq by simp
  then show ?thesis using es p by simp
qed

lemma example_dates:
  "strptime gregorian ''20240101'' = Some 738886"
  "strptime gregorian ''20240102'' = Some 738887"
  "strptime gregorian ''20240105'' = Some 738890"
  "strptime gregorian ''20231231'' = Some 738885"
  "strftime gregorian 738886 = ''20240101''"
  "strftime gregorian 738887 = ''20240102''"
  by code_simp+

lemma example_strip:
  "strip ''20240105'' = ''20240105''" "strip ''20240102'' = ''20240102''"
  by code_simp+

lemma example_wm_args_fields:
  "start_date example_wm_args = ''20240101''" "end_date example_wm_args = ''20240102''"
  "start_time example_wm_args = ''000000''" "end_time example_wm_args = ''000002''"
  "base example_wm_args = ''b''" "workers example_wm_args = 2"
  "timeout example_wm_args = 19800" "resume_file example_wm_args = ''progress.log''"
  by (simp_all add: example_wm_args_def)

theorem checkpoint_beyond_end_witness:
  "files0 checkpoint_env (resume_file example_wm_args) = Some ''20240105''
   \<and> strptime gregorian (strip ''20240105'') = Some 738890
   \<and> (738887::int) < 738890
   \<and> fst (wm_main checkpoint_env gregorian example_wm_args) = AllDone
   \<and> files (snd (wm_main checkpoint_env gregorian example_wm_args)) OUTPUT_FILE = Some []"
proof -
  have 1: "files0 checkpoint_env (resume_file example_wm_args) = Some ''20240105''"
    by (simp add: checkpoint_env_def checkpoint_files_def example_wm_args_fields)
  have 2: "strip ''20240105'' \<noteq> []" by (simp add: example_strip)
  have 3: "strptime gregorian (strip ''20240105'') = Some 738890"
    by (simp add: example_strip example_dates)
  have 4: "strptime gregorian (start_date example_wm_args) = Some 738886"
    by (simp add: example_wm_args_fields example_dates)
  have 5: "strptime gregorian (end_date example_wm_args) = Some 738887"
    by (simp add: example_wm_args_fields example_dates)
  have 6: "(738887::int) < 738890" by simp
  from checkpoint_beyond_end[OF 1 2 3 4 5 6] 1 3 show ?thesis by simp
qed

theorem time_budget_cutoff_witness:
  "\<not> should_stop ((init_state example_env)\<lparr>ticks := Suc 0\<rparr>)
   \<and> fst (remaining_time example_env (guard_of example_env short_args)
             ((init_state example_env)\<lparr>ticks := Suc 0\<rparr>)) < 300
   \<and> fst (date_loop example_env gregorian short_args (guard_of example_env short_args)
             738887 0 738886 ((init_state example_env)\<lparr>ticks := Suc 0\<rparr>)) = Inr 738886
   \<and> files (snd (date_loop example_env gregorian short_args (guard_of example_env short_args)
             738887 0 738886 ((init_state example_env)\<lparr>ticks := Suc 0\<rparr>))) ''progress.log''
       = Some ''20240101''"
proof -
  let ?s = "(init_state example_env)\<lparr>ticks := Suc 0\<rparr>"
  let ?G = "guard_of example_env short_args"
  have 1: "(738886::int) \<le> 738887" by simp
  have 2: "\<not> should_stop ?s" by (simp add: init_state_def example_env_def)
  have 3: "fst (remaining_time example_env ?G ?s) < 300"
    by (simp add: remaining_time_def guard_of_fields short_args_def example_wm_args_def
          example_env_def)
  have g: "g_resume_file ?G = ''progress.log''"
    by (simp add: guard_of_fields short_args_def example_wm_args_def)
  from time_budget_cutoff[OF 1 2 3, of gregorian short_args 0] 2 3 show ?thesis
    by (simp add: g example_dates)
qed

theorem resume_from_checkpoint_witness:
  "files0 resume_env (resume_file example_wm_args) = Some ''20240102''
   \<and> strptime gregorian (strip ''20240102'') = Some 738887
   \<and> effective_start gregorian (guard_of resume_env example_wm_args) 738886 = Inr 738887"
proof -
  have 1: "files0 resume_env (resume_file example_wm_args) = Some ''20240102''"
    by (simp add: resume_env_def resume_files_def example_wm_args_fields)
  have 2: "strip ''20240102'' \<noteq> []" by (simp add: example_strip)
  have 3: "strptime gregorian (strip ''20240102'') = Some 738887"
    by (simp add: example_strip example_dates)
  have 4: "strptime gregorian (start_date example_wm_args) = Some 738886"
    by (simp add: example_wm_args_fields example_dates)
  have 5: "strptime gregorian (end_date example_wm_args) = Some 738887"
    by (simp add: example_wm_args_fields example_dates)
  from resume_from_checkpoint[OF 1 2 3 4 5] 1 3 show ?thesis by simp
qed

section \<open>Inverted ranges\<close>

lemma validate_args_inverted_dates:
  assumes "strptime L (start_date a) = Some sd" "strptime L (end_date a) = Some ed" "ed < sd"
  shows "validate_args L a = Inl (ValueError EndDateBeforeStart)"
  using assms by (simp add: validate_args_def validate_date_def validate_date_range_def)

lemma validate_args_inverted_times:
  assumes "strptime L (start_date a) = Some sd" "strptime L (end_date a) = Some ed"
    and "validate_date_range L sd ed = Inr ()"
    and "validate_time (start_time a) = Inr st" "validate_time (end_time a) = Inr et"
    and "to_seconds st = Inr ss" "to_seconds et = Inr es" "es < ss"
  shows "validate_args L a = Inl (ValueError EndTimeBeforeStart)"
  using assms
  by (simp add: validate_args_def validate_date_def generate_time_numbers_def)

lemma main_rejected:
  "validate_args L a = Inl (ValueError r) \<Longrightarrow>
     main E L a = (ArgumentError (ValueError r), init_state E)"
  by (simp add: main_def)

lemma generate_time_numbers_inverted:
  assumes "to_seconds s = Inr ss" "to_seconds e = Inr es" "es < ss"
  shows "generate_time_numbers s e = Inl (ValueError EndTimeBeforeStart)"
  using assms by (simp add: generate_time_numbers_def)

lemma effective_start_ge:
  "effective_start L G sd = Inr first \<Longrightarrow> sd \<le> first"
  by (auto simp: effective_start_def split: option.splits if_splits)

lemma date_loop_without_times:
  assumes "generate_time_numbers (start_time a) (end_time a) = Inl e"
  shows "list_all (\<lambda>x. \<not> is_probe x) (effects s) \<longrightarrow>
         list_all (\<lambda>x. \<not> is_probe x) (effects (snd (date_loop E L a G end_d k current s)))"
  using assms
  by (subst date_loop.simps) (simp add: save_progress_def is_probe_def)

lemma wm_main_no_probe:
  assumes "list_all (\<lambda>x. \<not> is_probe x)
     (effects (snd (process_date_range E L a (guard_of E a) ((init_state E)\<lparr>ticks := Suc 0\<rparr>))))"
  shows "list_all (\<lambda>x. \<not> is_probe x) (effects (snd (wm_main E L a)))"
  using assms unfolding wm_main_eq by (simp add: write_output_def is_probe_def)

lemma process_without_times:
  assumes "generate_time_numbers (start_time a) (end_time a) = Inl e"
  shows "list_all (\<lambda>x. \<not> is_probe x) (effects (snd (process_date_range E L a G ((init_state E)\<lparr>ticks := Suc 0\<rparr>))))"
proof (cases rule: process_date_range_cases[of E L a G "(init_state E)\<lparr>ticks := Suc 0\<rparr>"])
  case (failed e)
  then show ?thesis using init_no_probe[of E] by simp
next
  case (looped sd ed first)
  show ?thesis unfolding looped(4)
    using date_loop_without_times[OF assms, of "(init_state E)\<lparr>ticks := Suc 0\<rparr>" E L G ed 0 first]
      init_no_probe[of E] by simp
qed

lemma wm_main_inverted_dates:
  assumes "strptime L (start_date w) = Some sd" "strptime L (end_date w) = Some ed" "ed < sd"
    and "effective_start L (guard_of E w) sd = Inr first"
  shows "fst (wm_main E L w) = AllDone"
    and "list_all (\<lambda>x. \<not> is_probe x) (effects (snd (wm_main E L w)))"
proof -
  let ?s = "(init_state E)\<lparr>ticks := Suc 0\<rparr>"
  have lt: "ed < first" using effective_start_ge[OF assms(4)] assms(3) by linarith
  have p: "process_date_range E L w (guard_of E w) ?s = date_loop E L w (guard_of E w) ed 0 first ?s"
    by (rule process_date_range_loop[OF assms(1,2,4)])
  have d: "date_loop E L w (guard_of E w) ed 0 first ?s = (Inr first, ?s)"
    by (rule date_loop_stop) (use lt in linarith)
  have nle: "\<not> first \<le> ed" using lt by linarith
  have r: "wm_report L w (Inr first) = AllDone"
    by (simp only: wm_report_def sum.case option.case nle if_False assms(2))
  show "fst (wm_main E L w) = AllDone" unfolding wm_main_eq p d using r by simp
  show "list_all (\<lambda>x. \<not> is_probe x) (effects (snd (wm_main E L w)))"
    unfolding wm_main_eq p d using init_no_probe[of E]
    by (simp add: write_output_def is_probe_def)
qed

text \<open>
  Claim C2, as amended. With an inverted range on either axis no request is sent.
  \<^verbatim>\<open>modified_script.py\<close> fails with the range error (a \<^verbatim>\<open>ValueError\<close>, reported as
  an argument error, exit status 1): for the dates as soon as both parse, for the times
  once the dates have passed validation. \<^verbatim>\<open>wm_script.py\<close> raises the range error only
  for the times, and only when its loop is entered and passes the time check; with the
  start date after the end date it raises nothing: the loop is not entered and the scan
  is reported as completely done.
\<close>

theorem inverted_ranges:
  "(strptime L (start_date a) = Some sd \<and> strptime L (end_date a) = Some ed \<and> ed < sd \<longrightarrow>
      main E L a = (ArgumentError (ValueError EndDateBeforeStart), init_state E))
   \<and> (strptime L (start_date a) = Some sd \<and> strptime L (end_date a) = Some ed
        \<and> validate_date_range L sd ed = Inr ()
        \<and> validate_time (start_time a) = Inr st \<and> validate_time (end_time a) = Inr et
        \<and> to_seconds st = Inr ss \<and> to_seconds et = Inr es \<and> es < ss \<longrightarrow>
      main E L a = (ArgumentError (ValueError EndTimeBeforeStart), init_state E))
   \<and> list_all (\<lambda>x. \<not> is_probe x) (effects (init_state E))
   \<and> (to_seconds (start_time w) = Inr ss \<and> to_seconds (end_time w) = Inr es \<and> es < ss \<longrightarrow>
        list_all (\<lambda>x. \<not> is_probe x) (effects (snd (wm_main E L w)))
        \<and> (strptime L (start_date w) = Some sd \<and> strptime L (end_date w) = Some ed
            \<and> effective_start L (guard_of E w) sd = Inr first \<and> first \<le> ed
            \<and> \<not> early_sigint E
            \<and> \<not> fst (check_timeout E (guard_of E w) ((init_state E)\<lparr>ticks := Suc 0\<rparr>)) \<longrightarrow>
           fst (wm_main E L w) = ErrorExit (ValueError EndTimeBeforeStart)))
   \<and> (strptime L (start_date w) = Some sd \<and> strptime L (end_date w) = Some ed \<and> ed < sd
        \<and> effective_start L (guard_of E w) sd = Inr first \<longrightarrow>
        fst (wm_main E L w) = AllDone
        \<and> list_all (\<lambda>x. \<not> is_probe x) (effects (snd (wm_main E L w))))"
proof (intro conjI impI)
  assume "strptime L (start_date a) = Some sd \<and> strptime L (end_date a) = Some ed \<and> ed < sd"
  then show "main E L a = (ArgumentError (ValueError EndDateBeforeStart), init_state E)"
    using main_rejected[OF validate_args_inverted_dates] by blast
next
  assume "strptime L (start_date a) = Some sd \<and> strptime L (end_date a) = Some ed
        \<and> validate_date_range L sd ed = Inr ()
        \<and> validate_time (start_time a) = Inr st \<and> validate_time (end_time a) = Inr et
        \<and> to_seconds st = Inr ss \<and> to_seconds et = Inr es \<and> es < ss"
  then show "main E L a = (ArgumentError (ValueError EndTimeBeforeStart), init_state E)"
    using main_rejected[OF validate_args_inverted_times] by blast
next
  show "list_all (\<lambda>x. \<not> is_probe x) (effects (init_state E))" by (rule init_no_probe)
next
  assume "to_seconds (start_time w) = Inr ss \<and> to_seconds (end_time w) = Inr es \<and> es < ss"
  then have "generate_time_numbers (start_time w) (end_time w) = Inl (ValueError EndTimeBeforeStart)"
    using generate_time_numbers_inverted by blast
  then show "list_all (\<lambda>x. \<not> is_probe x) (effects (snd (wm_main E L w)))"
    by (intro wm_main_no_probe process_without_times)
next
  let ?s = "(init_state E)\<lparr>ticks := Suc 0\<rparr>"
  assume t: "to_seconds (start_time w) = Inr ss \<and> to_seconds (end_time w) = Inr es \<and> es < ss"
    and h: "strptime L (start_date w) = Some sd \<and> strptime L (end_date w) = Some ed
            \<and> effective_start L (guard_of E w) sd = Inr first \<and> first \<le> ed
            \<and> \<not> early_sigint E
            \<and> \<not> fst (check_timeout E (guard_of E w) ((init_state E)\<lparr>ticks := Suc 0\<rparr>))"
  from t have g: "generate_time_numbers (start_time w) (end_time w) = Inl (ValueError EndTimeBeforeStart)"
    using generate_time_numbers_inverted by blast
  from h have ns: "\<not> should_stop ?s" by (simp add: init_state_def)
  from h have p: "process_date_range E L w (guard_of E w) ?s = date_loop E L w (guard_of E w) ed 0 first ?s"
    using process_date_range_loop by blast
  have "date_loop E L w (guard_of E w) ed 0 first ?s
      = (Inl (ValueError EndTimeBeforeStart), ?s\<lparr>ticks := Suc (ticks ?s)\<rparr>)"
    by (rule date_loop_bad_times) (use h ns g in auto)
  then show "fst (wm_main E L w) = ErrorExit (ValueError EndTimeBeforeStart)"
    unfolding wm_main_eq p by (simp add: wm_report_def)
next
  assume h: "strptime L (start_date w) = Some sd \<and> strptime L (end_date w) = Some ed \<and> ed < sd
        \<and> effective_start L (guard_of E w) sd = Inr first"
  then show "fst (wm_main E L w) = AllDone"
    using wm_main_inverted_dates(1) by blast
  from h show "list_all (\<lambda>x. \<not> is_probe x) (effects (snd (wm_main E L w)))"
    using wm_main_inverted_dates(2) by blast
qed

lemma example_args_fields:
  "start_date example_args = ''20240101''" "end_date example_args = ''20240102''"
  "start_time example_args = ''000000''" "end_time example_args = ''000002''"
  "base example_args = ''b''" "workers example_args = 2"
  by (simp_all add: example_args_def)

lemma example_times:
  "validate_time ''000005'' = Inr ''000005''" "validate_time ''000002'' = Inr ''000002''"
  "to_seconds ''000005'' = Inr 5" "to_seconds ''000002'' = Inr 2"
  by code_simp+

lemma example_date_range: "validate_date_range gregorian 738886 738887 = Inr ()"
  by code_simp

lemma no_checkpoint_start:
  "files0 E (resume_file w) = None \<Longrightarrow> effective_start L (guard_of E w) sd = Inr sd"
  by (simp add: effective_start_def guard_of_fields)

lemma example_env_fields:
  "files0 example_env p = None" "\<not> early_sigint example_env" "clock example_env k = 0"
  "sched example_env k = []"
  by (simp_all add: example_env_def)

theorem inverted_ranges_witness:
  "fst (main example_env gregorian inverted_args) = ArgumentError (ValueError EndDateBeforeStart)
   \<and> fst (main example_env gregorian late_start_args) = ArgumentError (ValueError EndTimeBeforeStart)
   \<and> fst (wm_main example_env gregorian late_start_wm_args) = ErrorExit (ValueError EndTimeBeforeStart)
   \<and> fst (wm_main example_env gregorian inverted_wm_args) = AllDone"
proof -
  have a1: "strptime gregorian (start_date inverted_args) = Some 738886
      \<and> strptime gregorian (end_date inverted_args) = Some 738885 \<and> (738885::int) < 738886"
    by (simp add: inverted_args_def example_args_fields example_dates)
  have a2: "strptime gregorian (start_date late_start_args) = Some 738886
      \<and> strptime gregorian (end_date late_start_args) = Some 738887
      \<and> validate_date_range gregorian 738886 738887 = Inr ()
      \<and> validate_time (start_time late_start_args) = Inr ''000005''
      \<and> validate_time (end_time late_start_args) = Inr ''000002''
      \<and> to_seconds ''000005'' = Inr 5 \<and> to_seconds ''000002'' = Inr 2 \<and> (2::int) < 5"
    by (simp add: late_start_args_def example_args_fields example_dates example_times
          example_date_range)
  have a3: "to_seconds (start_time late_start_wm_args) = Inr 5
      \<and> to_seconds (end_time late_start_wm_args) = Inr 2 \<and> (2::int) < 5"
    by (simp add: late_start_wm_args_def example_wm_args_fields example_times)
  have a4: "strptime gregorian (start_date late_start_wm_args) = Some 738886
      \<and> strptime gregorian (end_date late_start_wm_args) = Some 738887
      \<and> effective_start gregorian (guard_of example_env late_start_wm_args) 738886 = Inr 738886
      \<and> (738886::int) \<le> 738887 \<and> \<not> early_sigint example_env
      \<and> \<not> fst (check_timeout example_env (guard_of example_env late_start_wm_args)
                ((init_state example_env)\<lparr>ticks := Suc 0\<rparr>))"
    by (simp add: late_start_wm_args_def example_wm_args_fields example_dates
          no_checkpoint_start example_env_fields check_timeout_def remaining_time_def
          guard_of_fields)
  have a5: "strptime gregorian (start_date inverted_wm_args) = Some 738886
      \<and> strptime gregorian (end_date inverted_wm_args) = Some 738885 \<and> (738885::int) < 738886
      \<and> effective_start gregorian (guard_of example_env inverted_wm_args) 738886 = Inr 738886"
    by (simp add: inverted_wm_args_def example_wm_args_fields example_dates
          no_checkpoint_start example_env_fields)
  have 1: "main example_env gregorian inverted_args
      = (ArgumentError (ValueError EndDateBeforeStart), init_state example_env)"
    using inverted_ranges[where L = gregorian and a = inverted_args and sd = 738886
        and ed = 738885 and E = example_env] a1 by blast
  have 2: "main example_env gregorian late_start_args
      = (ArgumentError (ValueError EndTimeBeforeStart), init_state example_env)"
    using inverted_ranges[where L = gregorian and a = late_start_args and sd = 738886
        and ed = 738887 and st = "''000005''" and et = "''000002''" and ss = 5 and es = 2
        and E = example_env] a2 by blast
  have 3: "fst (wm_main example_env gregorian late_start_wm_args)
      = ErrorExit (ValueError EndTimeBeforeStart)"
    using inverted_ranges[where L = gregorian and w = late_start_wm_args and sd = 738886
        and ed = 738887 and ss = 5 and es = 2 and first = 738886 and E = example_env] a3 a4
    by blast
  have 4: "fst (wm_main example_env gregorian inverted_wm_args) = AllDone"
    using inverted_ranges[where L = gregorian and w = inverted_wm_args and sd = 738886
        and ed = 738885 and first = 738886 and E = example_env] a5 by blast
  show ?thesis using 1 2 3 4 by simp
qed

theorem inverted_ranges_counterexample:
  "strptime gregorian (start_date inverted_wm_args) = Some 738886
   \<and> strptime gregorian (end_date inverted_wm_args) = Some 738885
   \<and> fst (wm_main example_env gregorian inverted_wm_args) = AllDone
   \<and> exit_code (fst (wm_main example_env gregorian inverted_wm_args)) = 0"
proof -
  have s: "strptime gregorian (start_date inverted_wm_args) = Some 738886"
    and e: "strptime gregorian (end_date inverted_wm_args) = Some 738885"
    by (simp_all add: inverted_wm_args_def example_wm_args_fields example_dates)
  have f: "effective_start gregorian (guard_of example_env inverted_wm_args) 738886 = Inr 738886"
    by (simp add: no_checkpoint_start example_env_fields)
  have "fst (wm_main example_env gregorian inverted_wm_args) = AllDone"
    by (rule wm_main_inverted_dates(1)[OF s e _ f]) simp
  then show ?thesis using s e by (simp add: exit_code_def)
qed

section \<open>What every run guarantees\<close>

lemma wm_main_safe: "safe (\<lambda>fh tn. True) (snd (process_date_range E L a (guard_of E a) ((init_state E)\<lparr>ticks := Suc 0\<rparr>)))"
  by (rule process_date_range_safe) (simp_all add: init_state_safe)

lemma safe_flag: "safe Q s \<Longrightarrow> should_stop s = (Interrupt \<in> set (effects s))"
  by (simp add: safe_def)

lemma wm_main_written:
  "filter is_write (effects (snd (wm_main E L a)))
      = [WriteOutput (join_lines (VALID_LINKS (snd (wm_main E L a))))]"
  "files (snd (wm_main E L a)) OUTPUT_FILE = Some (join_lines (VALID_LINKS (snd (wm_main E L a))))"
  "last (effects (snd (wm_main E L a))) = WriteOutput (join_lines (VALID_LINKS (snd (wm_main E L a))))"
  "should_stop (snd (wm_main E L a)) = (Interrupt \<in> set (effects (snd (wm_main E L a))))"
  using write_output_safe_parts(1,2,3,4)[OF wm_main_safe, of E L a]
  unfolding wm_main_eq by (simp_all add: write_output_def)

lemma main_ran_safe:
  "safe (\<lambda>fh tn. (fh, tn) \<in> set tasks) (run_pool E w tasks (init_state E))"
  by (rule run_pool_safe) (simp_all add: init_state_safe)

lemma main_written:
  assumes "fst (main E L a) = Returned"
  shows "filter is_write (effects (snd (main E L a)))
      = [WriteOutput (join_lines (VALID_LINKS (snd (main E L a))))]"
    and "files (snd (main E L a)) OUTPUT_FILE = Some (join_lines (VALID_LINKS (snd (main E L a))))"
    and "last (effects (snd (main E L a))) = WriteOutput (join_lines (VALID_LINKS (snd (main E L a))))"
proof -
  from assms obtain tasks where
    m: "main E L a = (Returned, write_output (run_pool E (workers a) tasks (init_state E)))"
    by (cases rule: main_cases[of E L a]) auto
  note p = write_output_safe_parts(1,3,4)[OF main_ran_safe, of E "workers a" tasks]
  show "filter is_write (effects (snd (main E L a)))
      = [WriteOutput (join_lines (VALID_LINKS (snd (main E L a))))]"
    and "files (snd (main E L a)) OUTPUT_FILE = Some (join_lines (VALID_LINKS (snd (main E L a))))"
    and "last (effects (snd (main E L a))) = WriteOutput (join_lines (VALID_LINKS (snd (main E L a))))"
    unfolding m using p by (simp_all add: write_output_def)
qed

lemma main_not_written:
  assumes "fst (main E L a) \<noteq> Returned"
  shows "filter is_write (effects (snd (main E L a))) = []"
    and "files (snd (main E L a)) = files0 E"
proof -
  from assms have m: "snd (main E L a) = init_state E"
    by (cases rule: main_cases[of E L a]) auto
  show "filter is_write (effects (snd (main E L a))) = []"
    and "files (snd (main E L a)) = files0 E"
    unfolding m by (simp_all add: init_state_def is_write_def)
qed





section \<open>An interrupted run saves no checkpoint\<close>

lemma pstep_saves: "pstep Q s s' \<Longrightarrow> filter is_save (effects s') = filter is_save (effects s)"
  by (auto simp: pstep_def is_save_def)

lemma run_batch_saves:
  "filter is_save (effects (run_batch E G w k fh tns s)) = filter is_save (effects s)"
  unfolding run_batch_def
proof (rule foldl_invariant[where P = "\<lambda>t::state. filter is_save (effects t) = filter is_save (effects s)"])
  show "filter is_save (effects (s\<lparr>status := replicate (length tns) Pending, active := tns \<noteq> []\<rparr>))
      = filter is_save (effects s)"
    by simp
next
  fix t :: state and x assume "filter is_save (effects t) = filter is_save (effects s)"
  then show "filter is_save (effects (batch_step E G w fh tns t x)) = filter is_save (effects s)"
    using pstep_saves[OF batch_step_pstep, of E G w fh tns t x] by simp
qed

lemma date_loop_interrupted:
  assumes "should_stop (snd (date_loop E L a G end_d k current s))"
  shows "filter is_save (effects (snd (date_loop E L a G end_d k current s)))
           = filter is_save (effects s)
       \<and> files (snd (date_loop E L a G end_d k current s)) = files s"
  using assms
proof (induction E L a G end_d k current s rule: date_loop.induct)
  case (1 E L a G end_d k current s)
  note stop = "1.prems"
  show ?case
  proof (cases "current \<le> end_d \<and> \<not> should_stop s")
    case False
    then show ?thesis by (subst (1 2) date_loop.simps) auto
  next
    case True
    show ?thesis
    proof (cases "fst (check_timeout E G s)")
      case t: True
      have "date_loop E L a G end_d k current s
          = (Inr current, save_progress L G current (snd (check_timeout E G s)))"
        using True t by (subst date_loop.simps) simp
      then have "\<not> should_stop (snd (date_loop E L a G end_d k current s))"
        using True by (simp add: save_progress_def)
      then show ?thesis using stop by simp
    next
      case nt: False
      show ?thesis
      proof (cases "generate_time_numbers (start_time a) (end_time a)")
        case (Inl e)
        have "date_loop E L a G end_d k current s = (Inl e, snd (check_timeout E G s))"
          using True nt Inl by (subst date_loop.simps) simp
        then show ?thesis by simp
      next
        case (Inr tns)
        show ?thesis
        proof (cases "workers a \<le> 0")
          case w: True
          have "date_loop E L a G end_d k current s
              = (Inl (ValueError MaxWorkers), snd (check_timeout E G s))"
            using True nt Inr w by (subst date_loop.simps) simp
          then show ?thesis by simp
        next
          case w: False
          let ?s1 = "run_batch E G (workers a) k (filehead_of L (base a) current) tns
                       (snd (check_timeout E G s))"
          have e1: "filter is_save (effects ?s1) = filter is_save (effects s)"
            by (simp add: run_batch_saves)
          have f1: "files ?s1 = files s"
            by (simp add: run_batch_files)
          show ?thesis
          proof (cases "plus_one_day current")
            case (Inl e)
            have "date_loop E L a G end_d k current s = (Inl e, ?s1)"
              using True nt Inr w Inl by (subst date_loop.simps) simp
            then show ?thesis using e1 f1 by simp
          next
            case next_d: (Inr next_d)
            have u: "date_loop E L a G end_d k current s
                = date_loop E L a G end_d (Suc k) next_d ?s1"
              using True nt Inr w next_d by (subst date_loop.simps) simp
            have "should_stop (snd (date_loop E L a G end_d (Suc k) next_d ?s1))"
              using stop u by simp
            from "1.IH"[OF True nt Inr w next_d this] show ?thesis
              using u e1 f1 by simp
          qed
        qed
      qed
    qed
  qed
qed

lemma process_interrupted:
  assumes "should_stop (snd (process_date_range E L a G s))"
  shows "filter is_save (effects (snd (process_date_range E L a G s)))
           = filter is_save (effects s)
       \<and> files (snd (process_date_range E L a G s)) = files s"
proof (cases rule: process_date_range_cases[of E L a G s])
  case (failed e)
  then show ?thesis by simp
next
  case (looped sd ed first)
  then show ?thesis using assms date_loop_interrupted[of E L a G ed 0 first s] by simp
qed

lemma init_state_saves: "filter is_save (effects (init_state E)) = []"
  by (simp add: init_state_def signal_handler_def is_save_def)

section \<open>What the probes find does not steer a run\<close>

lemma phase_simps [simp]:
  "phase Pending = Pending"
  "phase (Running r) = Running RequestException"
  "phase (Finished ro) = Finished None"
  "phase (Yielded ro) = Yielded None"
  "phase Cancelled = Cancelled"
  "phase Entered = Entered"
  by (simp_all add: phase_def)











lemma same_course_length: "same_course s t \<Longrightarrow> length (status t) = length (status s)"
  unfolding same_course_def using length_map by metis













section \<open>Requests after the signal\<close>
































section \<open>Interrupted runs\<close>

lemma interrupted_run:
  "(case wm_main interrupted_env gregorian example_wm_args of
      (x, s) \<Rightarrow> (x, VALID_LINKS s, effects s, files s OUTPUT_FILE, files s ''progress.log''))
   = (PartlyDone ''20240102'', [],
      [Probe ''b_20240101'' ''000000'', Probe ''b_20240101'' ''000001'', Interrupt, WriteOutput []],
      Some [], None)"
  by code_simp


lemma inflight_run:
  "(case main inflight_env gregorian example_args of
      (x, s) \<Rightarrow> (x, VALID_LINKS s, effects s))
   = (Returned, [''https://h.example/p/b_20240101000001_0.opt''],
      [Probe ''b_20240101'' ''000001'', Interrupt,
       WriteOutput ''https://h.example/p/b_20240101000001_0.opt''])"
  by code_simp




lemma rejected_runs:
  "fst (main example_env gregorian inverted_args) = ArgumentError (ValueError EndDateBeforeStart)"
  "effects (snd (main example_env gregorian inverted_args)) = []"
  "fst (main example_env gregorian no_workers_args) = Uncaught (ValueError MaxWorkers)"
  "effects (snd (main example_env gregorian no_workers_args)) = []"
  "files (snd (main example_env gregorian inverted_args)) OUTPUT_FILE = None"
  "files (snd (main example_env gregorian no_workers_args)) OUTPUT_FILE = None"
  by code_simp+

section \<open>The result file\<close>

text \<open>
  Claim C3, as amended. \<^verbatim>\<open>wm_script.py\<close> writes the result file in the \<^verbatim>\<open>finally\<close>
  block of \<^verbatim>\<open>main\<close>: on every way out of the \<^verbatim>\<open>try\<close> block (scan completed,
  interrupted, stopped at the time limit, or ended by an exception) the file is written
  exactly once, as the last effect of the run, and holds the joined list of links.
  \<^verbatim>\<open>modified_script.py\<close> writes the file at the end of \<^verbatim>\<open>main\<close>, outside any
  \<^verbatim>\<open>finally\<close>: exactly once when \<^verbatim>\<open>main\<close> returns (scan completed or interrupted),
  and not at all when the run ends with an argument error or an uncaught exception, which
  leaves every file as it was.
\<close>

theorem result_file_written_once:
  "filter is_write (effects (snd (wm_main E L w)))
      = [WriteOutput (join_lines (VALID_LINKS (snd (wm_main E L w))))]
   \<and> last (effects (snd (wm_main E L w)))
      = WriteOutput (join_lines (VALID_LINKS (snd (wm_main E L w))))
   \<and> files (snd (wm_main E L w)) OUTPUT_FILE
      = Some (join_lines (VALID_LINKS (snd (wm_main E L w))))
   \<and> (fst (main E L a) = Returned \<longrightarrow>
        filter is_write (effects (snd (main E L a)))
          = [WriteOutput (join_lines (VALID_LINKS (snd (main E L a))))]
        \<and> last (effects (snd (main E L a)))
          = WriteOutput (join_lines (VALID_LINKS (snd (main E L a))))
        \<and> files (snd (main E L a)) OUTPUT_FILE
          = Some (join_lines (VALID_LINKS (snd (main E L a)))))
   \<and> (fst (main E L a) \<noteq> Returned \<longrightarrow>
        filter is_write (effects (snd (main E L a))) = []
        \<and> files (snd (main E L a)) = files0 E)"
  using wm_main_written(1,2,3)[of E L w] main_written[of E L a] main_not_written[of E L a]
  by blast

theorem result_file_written_once_witness:
  "fst (main inflight_env gregorian example_args) = Returned
   \<and> files (snd (main inflight_env gregorian example_args)) OUTPUT_FILE
       = Some ''https://h.example/p/b_20240101000001_0.opt''
   \<and> fst (main example_env gregorian inverted_args) \<noteq> Returned
   \<and> files (snd (main example_env gregorian inverted_args)) = files0 example_env
   \<and> files (snd (wm_main interrupted_env gregorian example_wm_args)) OUTPUT_FILE = Some []"
proof -
  have 1: "fst (main inflight_env gregorian example_args) = Returned"
    and 2: "VALID_LINKS (snd (main inflight_env gregorian example_args))
        = [''https://h.example/p/b_20240101000001_0.opt'']"
    using inflight_run by (simp_all add: split_def)
  have 3: "fst (main example_env gregorian inverted_args) \<noteq> Returned"
    by (simp add: rejected_runs)
  have 4: "VALID_LINKS (snd (wm_main interrupted_env gregorian example_wm_args)) = []"
    using interrupted_run by (simp add: split_def)
  from result_file_written_once[where E = inflight_env and L = gregorian and a = example_args]
    result_file_written_once[where E = example_env and L = gregorian and a = inverted_args]
    result_file_written_once[where E = interrupted_env and L = gregorian and w = example_wm_args]
    1 2 3 4
  show ?thesis by simp
qed

text \<open>
  Against the claim as it stood: two runs of \<^verbatim>\<open>modified_script.py\<close> that write no result
  file, one ended by the argument error of an inverted date range, one by the
  \<^verbatim>\<open>ValueError\<close> that \<^verbatim>\<open>ThreadPoolExecutor\<close> raises for \<^verbatim>\<open>--workers 0\<close>.
\<close>

theorem result_file_written_once_counterexample:
  "fst (main example_env gregorian inverted_args) = ArgumentError (ValueError EndDateBeforeStart)
   \<and> filter is_write (effects (snd (main example_env gregorian inverted_args))) = []
   \<and> files (snd (main example_env gregorian inverted_args)) OUTPUT_FILE = None
   \<and> fst (main example_env gregorian no_workers_args) = Uncaught (ValueError MaxWorkers)
   \<and> filter is_write (effects (snd (main example_env gregorian no_workers_args))) = []
   \<and> files (snd (main example_env gregorian no_workers_args)) OUTPUT_FILE = None"
  by (simp add: rejected_runs)

section \<open>Interruption\<close>

text \<open>
  Claim C7. What \<^verbatim>\<open>wm_script.py\<close> does when it is interrupted: in every run in which
  the signal handler ran, \<^verbatim>\<open>save_progress\<close> is never called and no file but the result
  file is changed, so the checkpoint file is as it was before the run; the result file
  holds the links found. The checkpoint is written on the time-limit path only.
\<close>

theorem interrupt_leaves_no_checkpoint:
  "Interrupt \<in> set (effects (snd (wm_main E L w))) \<longrightarrow>
     filter is_save (effects (snd (wm_main E L w))) = []
     \<and> (\<forall>p. p \<noteq> OUTPUT_FILE \<longrightarrow> files (snd (wm_main E L w)) p = files0 E p)
     \<and> files (snd (wm_main E L w)) OUTPUT_FILE
         = Some (join_lines (VALID_LINKS (snd (wm_main E L w))))"
proof
  let ?s0 = "(init_state E)\<lparr>ticks := Suc 0\<rparr>"
  let ?r = "snd (process_date_range E L w (guard_of E w) ?s0)"
  assume "Interrupt \<in> set (effects (snd (wm_main E L w)))"
  then have "Interrupt \<in> set (effects ?r)"
    by (simp add: wm_main_eq write_output_def)
  then have "should_stop ?r"
    using safe_flag[OF wm_main_safe, of E L w] by simp
  from process_interrupted[OF this]
  have e: "filter is_save (effects ?r) = []" and f: "files ?r = files0 E"
    by (simp_all add: init_state_saves) (simp add: init_state_def)
  show "filter is_save (effects (snd (wm_main E L w))) = []
     \<and> (\<forall>p. p \<noteq> OUTPUT_FILE \<longrightarrow> files (snd (wm_main E L w)) p = files0 E p)
     \<and> files (snd (wm_main E L w)) OUTPUT_FILE
         = Some (join_lines (VALID_LINKS (snd (wm_main E L w))))"
    using e f by (simp add: wm_main_eq write_output_def is_save_def)
qed

text \<open>
  The run of \<^verbatim>\<open>--base b --start_date 20240101 --end_date 20240102 --start_time 000000
  --end_time 000002 --workers 2\<close> with no checkpoint file, interrupted while the batch of
  the first date is collected: the run is reported as partly done with last date 20240102,
  the result file is written, and there is no checkpoint file.
\<close>

theorem interrupt_leaves_no_checkpoint_witness:
  "fst (wm_main interrupted_env gregorian example_wm_args) = PartlyDone ''20240102''
   \<and> effects (snd (wm_main interrupted_env gregorian example_wm_args))
       = [Probe ''b_20240101'' ''000000'', Probe ''b_20240101'' ''000001'', Interrupt,
          WriteOutput []]
   \<and> filter is_save (effects (snd (wm_main interrupted_env gregorian example_wm_args))) = []
   \<and> files (snd (wm_main interrupted_env gregorian example_wm_args)) (resume_file example_wm_args)
       = None
   \<and> files (snd (wm_main interrupted_env gregorian example_wm_args)) OUTPUT_FILE = Some []"
proof -
  have 1: "fst (wm_main interrupted_env gregorian example_wm_args) = PartlyDone ''20240102''"
    and 2: "effects (snd (wm_main interrupted_env gregorian example_wm_args))
       = [Probe ''b_20240101'' ''000000'', Probe ''b_20240101'' ''000001'', Interrupt,
          WriteOutput []]"
    and 3: "VALID_LINKS (snd (wm_main interrupted_env gregorian example_wm_args)) = []"
    using interrupted_run by (simp_all add: split_def)
  have 4: "Interrupt \<in> set (effects (snd (wm_main interrupted_env gregorian example_wm_args)))"
    by (simp add: 2)
  have 5: "resume_file example_wm_args \<noteq> OUTPUT_FILE"
    by (simp add: example_wm_args_def OUTPUT_FILE_def)
  have 6: "files0 interrupted_env (resume_file example_wm_args) = None"
    by (simp add: interrupted_env_def example_env_def)
  from interrupt_leaves_no_checkpoint[of interrupted_env gregorian example_wm_args] 4 5 6
  have "filter is_save (effects (snd (wm_main interrupted_env gregorian example_wm_args))) = []
    \<and> files (snd (wm_main interrupted_env gregorian example_wm_args)) (resume_file example_wm_args)
       = None
    \<and> files (snd (wm_main interrupted_env gregorian example_wm_args)) OUTPUT_FILE
       = Some (join_lines (VALID_LINKS (snd (wm_main interrupted_env gregorian example_wm_args))))"
    by simp
  then show ?thesis using 1 2 3 by simp
qed




section \<open>What is put on the list of links\<close>




end
